theory Spec2Isabelle
  imports Main
begin

section \<open>The memory server of \<^verbatim>\<open>src/index.ts\<close>\<close>

text \<open>
  The server answers one request at a time. A tool call names an operation and carries an
  argument bag; the handler issues at most one call to the Record Store (the Supabase
  client) and turns the store's reply, or any exception, into a response envelope.

  The embedding has two layers. The handler is translated from the source and takes the
  store as a parameter: a record of the five calls the source makes, each a function on an
  arbitrary store state that returns the client's \<^verbatim>\<open>{data, error}\<close> reply. Statements
  about the handler alone hold for every such store. The second layer is a model of the
  store itself, a table of rows with the uniqueness constraint on
  \<^verbatim>\<open>(user_id, memory_key)\<close>, against which the statements that depend on what the
  store returns are settled.

  Strings are byte strings. Argument values have the types the tool catalogue declares
  (\<^verbatim>\<open>inputSchema\<close>: strings, and an object for \<^verbatim>\<open>metadata\<close>); every property may
  be absent, since the handler checks nothing. The type of metadata objects is a parameter
  \<open>'m\<close>: the handler only tests an object for truthiness, and every object is truthy.
\<close>

subsection \<open>Arguments, rows and replies\<close>

text \<open>The destructured argument bag; \<open>None\<close> is JavaScript's \<^verbatim>\<open>undefined\<close>.\<close>

record 'm args =
  arg_user_id :: "string option"
  arg_key :: "string option"
  arg_content :: "string option"
  arg_tag :: "string option"
  arg_metadata :: "'m option"
  arg_search :: "string option"

text \<open>A row of the table \<^verbatim>\<open>memories\<close>; \<open>None\<close> in a nullable column is SQL \<^verbatim>\<open>NULL\<close>.\<close>

record 'm row =
  user_id :: string
  memory_key :: string
  content :: string
  tag :: "string option"
  metadata :: "'m option"
  created_at :: nat
  updated_at :: nat

text \<open>
  The object handed to \<^verbatim>\<open>upsert\<close>. A property that is \<^verbatim>\<open>undefined\<close> is dropped
  when the request body is serialised and a property that is \<^verbatim>\<open>null\<close> is sent as
  such; the column receives no value either way, so both are \<open>None\<close> here.
\<close>

record 'm upsert_row =
  new_user_id :: "string option"
  new_memory_key :: "string option"
  new_content :: "string option"
  new_tag :: "string option"
  new_metadata :: "'m option"

text \<open>A row of the projection \<^verbatim>\<open>memory_key, content, tag, created_at, updated_at\<close>.\<close>

record item =
  item_memory_key :: string
  item_content :: string
  item_tag :: "string option"
  item_created_at :: nat
  item_updated_at :: nat

text \<open>The \<^verbatim>\<open>error\<close> object of a reply, with the two properties the handler reads.\<close>

record store_error =
  message :: string
  code :: string

text \<open>
  A reply \<^verbatim>\<open>{data, error}\<close> of the client: either \<^verbatim>\<open>error\<close> is set and
  \<^verbatim>\<open>data\<close> is \<^verbatim>\<open>null\<close> (\<open>Inl\<close>), or \<^verbatim>\<open>error\<close> is \<^verbatim>\<open>null\<close> and
  \<^verbatim>\<open>data\<close> holds the result (\<open>Inr\<close>).
\<close>

type_synonym 'a reply = "store_error + 'a"

text \<open>
  The Record Store as the handler uses it, one field per call chain of the source:
  \<^item> \<open>upsert\<close>: \<^verbatim>\<open>.upsert(row, {onConflict: 'user_id,memory_key'}).select()\<close>;
  \<^item> \<open>select_single u k\<close>:
    \<^verbatim>\<open>.select('*').eq('user_id', u).eq('memory_key', k).single()\<close>;
  \<^item> \<open>select_list u t f\<close>: the five-column projection with \<^verbatim>\<open>.eq('user_id', u)\<close>,
    \<^verbatim>\<open>.order('updated_at', {ascending: false})\<close>, then \<^verbatim>\<open>.eq('tag', x)\<close> when
    \<open>t = Some x\<close> and \<^verbatim>\<open>.or(y)\<close> when \<open>f = Some y\<close>;
  \<^item> \<open>delete_where u k\<close>: \<^verbatim>\<open>.delete().eq('user_id', u).eq('memory_key', k)\<close>;
  \<^item> \<open>select_tags u\<close>: \<^verbatim>\<open>.select('tag').eq('user_id', u).not('tag', 'is', null)\<close>,
    the \<^verbatim>\<open>tag\<close> of each returned row.
\<close>

record ('s, 'm) store =
  upsert :: "'m upsert_row \<Rightarrow> 's \<Rightarrow> 'm row list reply \<times> 's"
  select_single :: "string option \<Rightarrow> string option \<Rightarrow> 's \<Rightarrow> 'm row reply \<times> 's"
  select_list :: "string option \<Rightarrow> string option \<Rightarrow> string option \<Rightarrow> 's \<Rightarrow> item list reply \<times> 's"
  delete_where :: "string option \<Rightarrow> string option \<Rightarrow> 's \<Rightarrow> unit reply \<times> 's"
  select_tags :: "string option \<Rightarrow> 's \<Rightarrow> string list reply \<times> 's"

subsection \<open>Response envelopes\<close>

text \<open>
  The \<^verbatim>\<open>message\<close> of a caught exception: the text given to \<^verbatim>\<open>new Error\<close>, or the
  text the engine gives the \<^verbatim>\<open>TypeError\<close> of destructuring \<^verbatim>\<open>undefined\<close>.
\<close>

datatype err_text = Msg string | Engine_message

text \<open>
  A value of the \<^verbatim>\<open>tagCounts\<close> object: a number, or the string that \<^verbatim>\<open>+ 1\<close>
  makes of a value inherited from \<^verbatim>\<open>Object.prototype\<close> (the text of that value
  followed by so many digits \<^verbatim>\<open>1\<close>).
\<close>

datatype count = Num nat | Inherited_text nat

text \<open>
  The object given to \<^verbatim>\<open>JSON.stringify\<close>, by shape:
  \<^item> \<open>Status_payload\<close>: \<^verbatim>\<open>{status, message, key}\<close>, the \<^verbatim>\<open>key\<close> property missing when
    it is \<open>None\<close> (\<^verbatim>\<open>JSON.stringify\<close> drops an \<^verbatim>\<open>undefined\<close> property);
  \<^item> \<open>Memory_payload\<close>: \<^verbatim>\<open>{key, content, tag, metadata, created_at, updated_at}\<close>;
  \<^item> \<open>List_payload\<close>: \<^verbatim>\<open>{count, memories}\<close>;
  \<^item> \<open>Tags_payload\<close>: \<^verbatim>\<open>{tags: [{tag, count}, ...]}\<close>;
  \<^item> \<open>Error_payload\<close>: \<^verbatim>\<open>{error, status: 'error'}\<close>.
\<close>

datatype 'm payload =
    Status_payload string string "string option"
  | Memory_payload string string "string option" "'m option" nat nat
  | List_payload nat "item list"
  | Tags_payload "(string \<times> count) list"
  | Error_payload err_text

text \<open>
  The envelope \<^verbatim>\<open>{content: [{type: 'text', text: JSON.stringify(p, null, 2)}], isError}\<close>;
  \<open>isError\<close> is \<open>False\<close> where the source leaves the property out.
\<close>

record 'm envelope =
  payload :: "'m payload"
  isError :: bool

subsection \<open>JavaScript expressions of the handler\<close>

definition apostrophe :: string where
  "apostrophe = [CHR 0x27]"

text \<open>\<^verbatim>\<open>${v}\<close> in a template literal.\<close>

definition template :: "string option \<Rightarrow> string" where
  "template v = (case v of None \<Rightarrow> ''undefined'' | Some s \<Rightarrow> s)"

text \<open>Truthiness of a string-or-undefined value: \<^verbatim>\<open>undefined\<close> and \<^verbatim>\<open>''\<close> are falsy.\<close>

definition truthy :: "string option \<Rightarrow> bool" where
  "truthy v = (case v of None \<Rightarrow> False | Some s \<Rightarrow> s \<noteq> [])"

text \<open>\<^verbatim>\<open>v || null\<close> on a string-or-undefined value.\<close>

definition or_null :: "string option \<Rightarrow> string option" where
  "or_null v = (if truthy v then v else None)"

text \<open>\<^verbatim>\<open>throw new Error(`Database error: ${error.message}`)\<close>.\<close>

definition database_error :: "store_error \<Rightarrow> err_text" where
  "database_error e = Msg (''Database error: '' @ message e)"

subsection \<open>The \<^verbatim>\<open>tagCounts\<close> object\<close>

text \<open>
  The accumulator of \<^verbatim>\<open>reduce\<close> starts as \<^verbatim>\<open>{}\<close>, an ordinary object: its own
  properties are kept in creation order, and a read of a name it does not own falls through
  to \<^verbatim>\<open>Object.prototype\<close>.
\<close>

type_synonym js_object = "(string \<times> count) list"

definition object_prototype_names :: "string list" where
  "object_prototype_names =
     [''constructor'', ''__defineGetter__'', ''__defineSetter__'', ''hasOwnProperty'',
      ''__lookupGetter__'', ''__lookupSetter__'', ''isPrototypeOf'', ''propertyIsEnumerable'',
      ''toString'', ''valueOf'', ''__proto__'', ''toLocaleString'']"

text \<open>\<^verbatim>\<open>acc[k] = v\<close> on an own data property: in place when it exists, else created last.\<close>

fun assign :: "js_object \<Rightarrow> string \<Rightarrow> count \<Rightarrow> js_object" where
  "assign [] k v = [(k, v)]"
| "assign ((k', v') # ps) k v = (if k' = k then (k, v) # ps else (k', v') # assign ps k v)"

text \<open>
  \<^verbatim>\<open>acc[tag] = (acc[tag] || 0) + 1\<close>. An own number \<open>n\<close> becomes \<open>n + 1\<close> (\<open>0\<close> is falsy
  and becomes \<open>1\<close> as well); an own string is truthy and gets the digit appended. A name
  not owned reads as \<^verbatim>\<open>undefined\<close> and is created with \<open>1\<close>, unless
  \<^verbatim>\<open>Object.prototype\<close> has it: then the inherited function or object is truthy,
  \<^verbatim>\<open>+ 1\<close> makes a string of it, and the assignment creates an own property with that
  string, except for \<^verbatim>\<open>__proto__\<close>, whose setter ignores a string.
\<close>

definition bump :: "js_object \<Rightarrow> string \<Rightarrow> js_object" where
  "bump acc t =
     (case map_of acc t of
        Some (Num n) \<Rightarrow> assign acc t (Num (n + 1))
      | Some (Inherited_text n) \<Rightarrow> assign acc t (Inherited_text (n + 1))
      | None \<Rightarrow>
          if t = ''__proto__'' then acc
          else if t \<in> set object_prototype_names then assign acc t (Inherited_text 1)
          else assign acc t (Num 1))"

text \<open>
  An array index: the canonical decimal form of a number below \<open>2^32 - 1\<close>.
\<close>

definition digit_value :: "char \<Rightarrow> nat" where
  "digit_value c = of_char c - 48"

definition is_digit :: "char \<Rightarrow> bool" where
  "is_digit c = (48 \<le> (of_char c :: nat) \<and> (of_char c :: nat) \<le> 57)"

definition decimal_value :: "string \<Rightarrow> nat" where
  "decimal_value s = foldl (\<lambda>n c. 10 * n + digit_value c) 0 s"

definition is_array_index :: "string \<Rightarrow> bool" where
  "is_array_index s =
     (s \<noteq> [] \<and> list_all is_digit s \<and> (hd s = CHR ''0'' \<longrightarrow> length s = 1)
      \<and> decimal_value s < 4294967295)"

text \<open>
  \<^verbatim>\<open>Object.entries\<close>: the own properties that are array indices in ascending numeric
  order, then the other string keys in creation order.
\<close>

definition entries :: "js_object \<Rightarrow> (string \<times> count) list" where
  "entries obj =
     sort_key (\<lambda>p. decimal_value (fst p)) (filter (\<lambda>p. is_array_index (fst p)) obj)
     @ filter (\<lambda>p. \<not> is_array_index (fst p)) obj"

text \<open>\<^verbatim>\<open>data.reduce((acc, row) => ..., {})\<close> over the returned tags.\<close>

definition tagCounts :: "string list \<Rightarrow> js_object" where
  "tagCounts tags = foldl bump [] tags"

subsection \<open>The five tools\<close>

text \<open>
  Each case of the \<^verbatim>\<open>switch\<close> returns either the exception it throws (\<open>Inl\<close>) or the
  envelope it returns (\<open>Inr\<close>), with the store state after its call.
\<close>

definition create_memory_row :: "'m args \<Rightarrow> 'm upsert_row" where
  "create_memory_row a =
     \<lparr>new_user_id = arg_user_id a,
      new_memory_key = arg_key a,
      new_content = arg_content a,
      new_tag = or_null (arg_tag a),
      new_metadata = arg_metadata a\<rparr>"

definition create_memory ::
  "('s, 'm) store \<Rightarrow> 'm args \<Rightarrow> 's \<Rightarrow> (err_text + 'm envelope) \<times> 's" where
  "create_memory st a s =
     (case upsert st (create_memory_row a) s of
        (Inl e, s') \<Rightarrow> (Inl (database_error e), s')
      | (Inr d, s') \<Rightarrow>
          (Inr \<lparr>payload = Status_payload ''success''
                  (''Memory '' @ apostrophe @ template (arg_key a) @ apostrophe
                     @ '' saved successfully'')
                  (arg_key a),
                isError = False\<rparr>, s'))"

definition get_memory ::
  "('s, 'm) store \<Rightarrow> 'm args \<Rightarrow> 's \<Rightarrow> (err_text + 'm envelope) \<times> 's" where
  "get_memory st a s =
     (case select_single st (arg_user_id a) (arg_key a) s of
        (Inl e, s') \<Rightarrow>
          if code e \<noteq> ''PGRST116'' then (Inl (database_error e), s')
          else
            (Inr \<lparr>payload = Status_payload ''not_found''
                    (''No memory found with key '' @ apostrophe @ template (arg_key a)
                       @ apostrophe)
                    None,
                  isError = False\<rparr>, s')
      | (Inr d, s') \<Rightarrow>
          (Inr \<lparr>payload = Memory_payload (memory_key d) (content d) (tag d) (metadata d)
                    (created_at d) (updated_at d),
                isError = False\<rparr>, s'))"

text \<open>
  The text given to \<^verbatim>\<open>.or\<close>:
  \<^verbatim>\<open>`memory_key.ilike.%${search}%,content.ilike.%${search}%`\<close>.
\<close>

definition search_filter :: "string \<Rightarrow> string" where
  "search_filter search =
     ''memory_key.ilike.%'' @ search @ ''%,content.ilike.%'' @ search @ ''%''"

text \<open>\<^verbatim>\<open>if (tag) { query = query.eq('tag', tag); }\<close>: the tag filter added, if any.\<close>

definition tag_argument :: "'m args \<Rightarrow> string option" where
  "tag_argument a = (if truthy (arg_tag a) then arg_tag a else None)"

text \<open>\<^verbatim>\<open>if (search) { query = query.or(...); }\<close>: the \<^verbatim>\<open>or\<close> filter added, if any.\<close>

definition or_argument :: "'m args \<Rightarrow> string option" where
  "or_argument a =
     (if truthy (arg_search a) then Some (search_filter (template (arg_search a))) else None)"

definition list_memories ::
  "('s, 'm) store \<Rightarrow> 'm args \<Rightarrow> 's \<Rightarrow> (err_text + 'm envelope) \<times> 's" where
  "list_memories st a s =
     (case select_list st (arg_user_id a) (tag_argument a) (or_argument a) s of
        (Inl e, s') \<Rightarrow> (Inl (database_error e), s')
      | (Inr d, s') \<Rightarrow>
          (Inr \<lparr>payload = List_payload (length d) d, isError = False\<rparr>, s'))"

definition forget_memory ::
  "('s, 'm) store \<Rightarrow> 'm args \<Rightarrow> 's \<Rightarrow> (err_text + 'm envelope) \<times> 's" where
  "forget_memory st a s =
     (case delete_where st (arg_user_id a) (arg_key a) s of
        (Inl e, s') \<Rightarrow> (Inl (database_error e), s')
      | (Inr d, s') \<Rightarrow>
          (Inr \<lparr>payload = Status_payload ''success''
                  (''Memory '' @ apostrophe @ template (arg_key a) @ apostrophe
                     @ '' deleted successfully'')
                  (arg_key a),
                isError = False\<rparr>, s'))"

definition list_tags ::
  "('s, 'm) store \<Rightarrow> 'm args \<Rightarrow> 's \<Rightarrow> (err_text + 'm envelope) \<times> 's" where
  "list_tags st a s =
     (case select_tags st (arg_user_id a) s of
        (Inl e, s') \<Rightarrow> (Inl (database_error e), s')
      | (Inr d, s') \<Rightarrow>
          (Inr \<lparr>payload = Tags_payload (entries (tagCounts d)), isError = False\<rparr>, s'))"

subsection \<open>The request handler\<close>

text \<open>
  \<^verbatim>\<open>const { ... } = args as any\<close> at the head of a case throws a \<^verbatim>\<open>TypeError\<close> when the
  request carries no \<^verbatim>\<open>arguments\<close>; the \<^verbatim>\<open>default\<close> case does not look at them.
\<close>

definition destructure ::
  "('m args \<Rightarrow> 's \<Rightarrow> (err_text + 'm envelope) \<times> 's) \<Rightarrow> 'm args option \<Rightarrow> 's
     \<Rightarrow> (err_text + 'm envelope) \<times> 's" where
  "destructure body arguments s =
     (case arguments of None \<Rightarrow> (Inl Engine_message, s) | Some a \<Rightarrow> body a s)"

text \<open>The \<^verbatim>\<open>switch (name)\<close> inside the \<^verbatim>\<open>try\<close> block.\<close>

definition switch_name ::
  "('s, 'm) store \<Rightarrow> string \<Rightarrow> 'm args option \<Rightarrow> 's \<Rightarrow> (err_text + 'm envelope) \<times> 's" where
  "switch_name st name arguments s =
     (if name = ''create_memory'' then destructure (create_memory st) arguments s
      else if name = ''get_memory'' then destructure (get_memory st) arguments s
      else if name = ''list_memories'' then destructure (list_memories st) arguments s
      else if name = ''forget_memory'' then destructure (forget_memory st) arguments s
      else if name = ''list_tags'' then destructure (list_tags st) arguments s
      else (Inl (Msg (''Unknown tool: '' @ name)), s))"

text \<open>The \<^verbatim>\<open>catch\<close> block: \<^verbatim>\<open>{error: error.message, status: 'error'}\<close>, \<^verbatim>\<open>isError: true\<close>.\<close>

definition error_envelope :: "err_text \<Rightarrow> 'm envelope" where
  "error_envelope m = \<lparr>payload = Error_payload m, isError = True\<rparr>"

text \<open>
  The handler of \<^verbatim>\<open>CallToolRequestSchema\<close>. Its result is \<open>Inr\<close> of the envelope it
  returns, or \<open>Inl\<close> of an exception that leaves it.
\<close>

definition call_tool ::
  "('s, 'm) store \<Rightarrow> string \<Rightarrow> 'm args option \<Rightarrow> 's \<Rightarrow> (err_text + 'm envelope) \<times> 's" where
  "call_tool st name arguments s =
     (case switch_name st name arguments s of
        (Inl m, s') \<Rightarrow> (Inr (error_envelope m), s')
      | (Inr env, s') \<Rightarrow> (Inr env, s'))"

section \<open>The Record Store\<close>

text \<open>
  The store is an external service reached through the Supabase client; none of it is under
  \<^verbatim>\<open>src/\<close>. What follows models it from the contract the specification gives
  (sections 3, 4.2, 6 and 7) and, where the source names an operation of the store's query
  language (\<^verbatim>\<open>eq\<close>, \<^verbatim>\<open>ilike\<close>, \<^verbatim>\<open>or\<close>, \<^verbatim>\<open>single\<close>), from the meaning of that
  operation. The model store answers every call: it has no outages.
\<close>

text \<open>
  Modelled from the spec: the persisted table, which is not under \<^verbatim>\<open>src/\<close> (section 6:
  a single table with the seven columns and timestamps assigned by the store). The rows are
  kept in the order in which a query without \<^verbatim>\<open>ORDER BY\<close> returns them; \<open>clock\<close> is
  the store's time, a counter that each write advances.
\<close>

record 'm db =
  table_rows :: "'m row list"
  clock :: nat

text \<open>
  Modelled from the spec: the uniqueness constraint on \<^verbatim>\<open>(user_id, memory_key)\<close>, which
  is not under \<^verbatim>\<open>src/\<close> (sections 3 and 6).
\<close>

definition unique_keys :: "'m db \<Rightarrow> bool" where
  "unique_keys d = distinct (map (\<lambda>r. (user_id r, memory_key r)) (table_rows d))"

text \<open>
  Modelled from the spec: the client's \<^verbatim>\<open>.eq(column, value)\<close>, which is not under
  \<^verbatim>\<open>src/\<close>. The filter is sent as the text \<^verbatim>\<open>eq.${value}\<close> and the store compares
  the column with the text after \<^verbatim>\<open>eq.\<close>, so that a string is compared exactly.
\<close>

definition eq_filter :: "string option \<Rightarrow> string \<Rightarrow> bool" where
  "eq_filter v x = (x = template v)"

text \<open>
  Modelled from the spec: the two \<^verbatim>\<open>.eq\<close> filters of a point lookup or delete, on
  \<^verbatim>\<open>user_id\<close> and \<^verbatim>\<open>memory_key\<close>.
\<close>

definition has_key :: "string option \<Rightarrow> string option \<Rightarrow> 'm row \<Rightarrow> bool" where
  "has_key u k r = (eq_filter u (user_id r) \<and> eq_filter k (memory_key r))"

text \<open>
  Modelled from the spec: the failures of the store that the model produces, which are not
  under \<^verbatim>\<open>src/\<close> (section 7: a null-constraint violation, the no-matching-row outcome
  of a point lookup, a malformed filter). The codes are those of the store and the message
  texts stand for the store's; the handler reads the code only to tell \<^verbatim>\<open>PGRST116\<close>
  apart and copies the message.
\<close>

definition not_null_violation :: store_error where
  "not_null_violation =
     \<lparr>message = ''null value violates not-null constraint'', code = ''23502''\<rparr>"

definition no_rows :: store_error where
  "no_rows =
     \<lparr>message = ''JSON object requested, multiple (or no) rows returned'',
      code = ''PGRST116''\<rparr>"

definition parse_failure :: store_error where
  "parse_failure = \<lparr>message = ''failed to parse logic tree'', code = ''PGRST100''\<rparr>"

definition bad_escape :: store_error where
  "bad_escape =
     \<lparr>message = ''LIKE pattern must not end with escape character'', code = ''22025''\<rparr>"

text \<open>
  Modelled from the spec: the store's upsert, which is not under \<^verbatim>\<open>src/\<close> (section 3:
  \<open>user_id\<close>, \<open>memory_key\<close> and \<open>content\<close> are never null; a create for an existing pair
  replaces \<open>content\<close>, \<open>tag\<close>, \<open>metadata\<close> and \<open>updated_at\<close> in place rather than
  producing a duplicate; section 6: the timestamps are assigned by the store). The reply
  carries the row written.
\<close>

definition pg_upsert :: "'m upsert_row \<Rightarrow> 'm db \<Rightarrow> 'm row list reply \<times> 'm db" where
  "pg_upsert p d =
     (case (new_user_id p, new_memory_key p, new_content p) of
        (Some u, Some k, Some c) \<Rightarrow>
          (if \<exists>r \<in> set (table_rows d). user_id r = u \<and> memory_key r = k
           then
             (let rs = map (\<lambda>r. if user_id r = u \<and> memory_key r = k
                                 then r\<lparr>content := c, tag := new_tag p,
                                        metadata := new_metadata p, updated_at := clock d\<rparr>
                                 else r) (table_rows d)
              in (Inr (filter (\<lambda>r. user_id r = u \<and> memory_key r = k) rs),
                  \<lparr>table_rows = rs, clock = Suc (clock d)\<rparr>))
           else
             (let r = \<lparr>user_id = u, memory_key = k, content = c, tag = new_tag p,
                       metadata = new_metadata p, created_at = clock d,
                       updated_at = clock d\<rparr>
              in (Inr [r], \<lparr>table_rows = table_rows d @ [r], clock = Suc (clock d)\<rparr>)))
      | _ \<Rightarrow> (Inl not_null_violation, d))"

text \<open>
  Modelled from the spec: the store's point lookup, which is not under \<^verbatim>\<open>src/\<close>
  (section 4.2: lookup by the unique pair; section 7: finding no row is the outcome "no
  matching row"). \<^verbatim>\<open>.single()\<close> answers with the row when exactly one row matches, and
  with the error of code \<^verbatim>\<open>PGRST116\<close> otherwise.
\<close>

definition pg_select_single ::
  "string option \<Rightarrow> string option \<Rightarrow> 'm db \<Rightarrow> 'm row reply \<times> 'm db" where
  "pg_select_single u k d =
     (case filter (has_key u k) (table_rows d) of
        [r] \<Rightarrow> (Inr r, d)
      | _ \<Rightarrow> (Inl no_rows, d))"

text \<open>
  Modelled from the spec: the store's delete, which is not under \<^verbatim>\<open>src/\<close> (section 4.2:
  deletes the row matching the pair; deleting a pair that has no row is not an error).
\<close>

definition pg_delete_where ::
  "string option \<Rightarrow> string option \<Rightarrow> 'm db \<Rightarrow> unit reply \<times> 'm db" where
  "pg_delete_where u k d =
     (Inr (), d\<lparr>table_rows := filter (\<lambda>r. \<not> has_key u k r) (table_rows d)\<rparr>)"

text \<open>
  Modelled from the spec: the store's projection of the non-null tags of a user's rows,
  which is not under \<^verbatim>\<open>src/\<close> (section 4.2: all non-null tags for the user).
\<close>

definition pg_select_tags :: "string option \<Rightarrow> 'm db \<Rightarrow> string list reply \<times> 'm db" where
  "pg_select_tags u d =
     (Inr (List.map_filter tag (filter (\<lambda>r. eq_filter u (user_id r)) (table_rows d))), d)"

subsection \<open>Pattern matching\<close>

definition backslash :: char where
  "backslash = CHR 0x5C"

text \<open>
  Modelled from the spec: the store's case folding, which is not under \<^verbatim>\<open>src/\<close>
  (section 4.2: the search is case-insensitive). The model folds the letters \<^verbatim>\<open>A\<close> to
  \<^verbatim>\<open>Z\<close> and compares every other byte as it is; the store folds letters outside
  ASCII as well, so the model is exact on ASCII text only.
\<close>

definition lower :: "char \<Rightarrow> char" where
  "lower c =
     (if 65 \<le> (of_char c :: nat) \<and> (of_char c :: nat) \<le> 90
      then char_of ((of_char c :: nat) + 32) else c)"

text \<open>
  Modelled from the spec: the store's operator \<^verbatim>\<open>ilike\<close>, which is not under
  \<^verbatim>\<open>src/\<close> and which the source names in the filter text. It is SQL's case-insensitive
  \<^verbatim>\<open>LIKE\<close>: in the pattern \<^verbatim>\<open>%\<close> stands for any text, \<^verbatim>\<open>_\<close> for any single
  character, a backslash makes the next character stand for itself, and any other
  character stands for itself up to case. \<open>ilike p t\<close> has the pattern first.
\<close>

fun ilike :: "string \<Rightarrow> string \<Rightarrow> bool" where
  "ilike [] t = (t = [])"
| "ilike (p # ps) t =
     (if p = CHR ''%'' then
        (ilike ps t \<or> (case t of [] \<Rightarrow> False | c # cs \<Rightarrow> ilike (p # ps) cs))
      else if p = CHR ''_'' then
        (case t of [] \<Rightarrow> False | c # cs \<Rightarrow> ilike ps cs)
      else if p = backslash then
        (case ps of
           [] \<Rightarrow> False
         | q # qs \<Rightarrow> (case t of [] \<Rightarrow> False | c # cs \<Rightarrow> lower c = lower q \<and> ilike qs cs))
      else
        (case t of [] \<Rightarrow> False | c # cs \<Rightarrow> lower c = lower p \<and> ilike ps cs))"

text \<open>
  Modelled from the spec: the store's check of a pattern, which is not under \<^verbatim>\<open>src/\<close>.
  A pattern whose last character is an escaping backslash is rejected.
\<close>

fun ends_in_escape :: "string \<Rightarrow> bool" where
  "ends_in_escape [] = False"
| "ends_in_escape [c] = (c = backslash)"
| "ends_in_escape (c # d # cs) =
     (if c = backslash then ends_in_escape cs else ends_in_escape (d # cs))"

subsection \<open>The text of an \<^verbatim>\<open>or\<close> filter\<close>

text \<open>
  The store reads the text given to \<^verbatim>\<open>.or\<close> as a list of conditions separated by
  commas, each of the form \<^verbatim>\<open>column.operator.value\<close>; a value that is not quoted runs
  up to the next comma or closing parenthesis, and a closing parenthesis ends the whole
  list. The model reads the conditions \<^verbatim>\<open>column.ilike.pattern\<close> on the text columns,
  with \<^verbatim>\<open>*\<close> in the pattern an alias of \<^verbatim>\<open>%\<close>; every other text is answered with
  the store's parse failure.
\<close>

text \<open>
  Modelled from the spec: the store's splitting of the filter text at its commas, which is
  not under \<^verbatim>\<open>src/\<close>.
\<close>

fun split_commas :: "string \<Rightarrow> string list" where
  "split_commas [] = [[]]"
| "split_commas (c # cs) =
     (let ps = split_commas cs
      in if c = CHR '','' then [] # ps else (c # hd ps) # tl ps)"

text \<open>
  Modelled from the spec: the columns of the table that hold text, which are not under
  \<^verbatim>\<open>src/\<close> (section 3).
\<close>

definition text_columns :: "string list" where
  "text_columns = [''user_id'', ''memory_key'', ''content'', ''tag'']"

text \<open>
  Modelled from the spec: the store's alias \<^verbatim>\<open>*\<close> for \<^verbatim>\<open>%\<close> in a pattern, which is not
  under \<^verbatim>\<open>src/\<close>.
\<close>

definition star :: "char \<Rightarrow> char" where
  "star c = (if c = CHR ''*'' then CHR ''%'' else c)"

text \<open>
  Modelled from the spec: the store's reading of one condition, which is not under
  \<^verbatim>\<open>src/\<close>: the column up to the first dot, the operator up to the second, the value
  after it.
\<close>

definition parse_condition :: "string \<Rightarrow> (string \<times> string) option" where
  "parse_condition p =
     (let col = takeWhile (\<lambda>c. c \<noteq> CHR ''.'') p
      in case dropWhile (\<lambda>c. c \<noteq> CHR ''.'') p of
           [] \<Rightarrow> None
         | _ # r \<Rightarrow>
             (let opr = takeWhile (\<lambda>c. c \<noteq> CHR ''.'') r
              in case dropWhile (\<lambda>c. c \<noteq> CHR ''.'') r of
                   [] \<Rightarrow> None
                 | _ # v \<Rightarrow>
                     if col \<in> set text_columns \<and> opr = ''ilike''
                        \<and> CHR '')'' \<notin> set v
                        \<and> (v = [] \<or> (hd v \<noteq> CHR 0x22 \<and> hd v \<noteq> CHR ''{''))
                     then Some (col, map star v) else None))"

text \<open>
  Modelled from the spec: the store's reading of the whole filter text, which is not under
  \<^verbatim>\<open>src/\<close>; it fails when one condition does.
\<close>

definition parse_or :: "string \<Rightarrow> (string \<times> string) list option" where
  "parse_or txt = those (map parse_condition (split_commas txt))"

text \<open>
  Modelled from the spec: the value of a text column by name, which is not under
  \<^verbatim>\<open>src/\<close>; \<open>None\<close> is \<^verbatim>\<open>NULL\<close>, which matches nothing.
\<close>

definition column_text :: "string \<Rightarrow> 'm row \<Rightarrow> string option" where
  "column_text col r =
     (if col = ''user_id'' then Some (user_id r)
      else if col = ''memory_key'' then Some (memory_key r)
      else if col = ''content'' then Some (content r)
      else tag r)"

text \<open>
  Modelled from the spec: the store's \<^verbatim>\<open>or\<close> of the conditions on a row, which is not
  under \<^verbatim>\<open>src/\<close> (section 4.2: either field matching qualifies).
\<close>

definition any_condition :: "(string \<times> string) list \<Rightarrow> 'm row \<Rightarrow> bool" where
  "any_condition conds r =
     (\<exists>(col, pat) \<in> set conds.
        case column_text col r of None \<Rightarrow> False | Some t \<Rightarrow> ilike pat t)"

subsection \<open>The filtered list\<close>

text \<open>
  Modelled from the spec: the store's projection of a row to the columns the source
  selects, which is not under \<^verbatim>\<open>src/\<close> (section 4.2).
\<close>

definition project :: "'m row \<Rightarrow> item" where
  "project r =
     \<lparr>item_memory_key = memory_key r, item_content = content r, item_tag = tag r,
      item_created_at = created_at r, item_updated_at = updated_at r\<rparr>"

text \<open>
  Modelled from the spec: the store's ordered selection, which is not under \<^verbatim>\<open>src/\<close>
  (section 4.2: ordered by \<open>updated_at\<close> descending): the rows satisfying \<open>P\<close>, latest
  \<open>updated_at\<close> first, projected.
\<close>

definition listing :: "('m row \<Rightarrow> bool) \<Rightarrow> 'm db \<Rightarrow> item list" where
  "listing P d =
     map project (sort_key (\<lambda>r. - int (updated_at r)) (filter P (table_rows d)))"

text \<open>
  Modelled from the spec: the \<^verbatim>\<open>.eq\<close> filter on \<^verbatim>\<open>tag\<close>, which is not under
  \<^verbatim>\<open>src/\<close> (section 4.2: exact tag match); a null tag matches no value.
\<close>

definition tag_filter :: "string option \<Rightarrow> 'm row \<Rightarrow> bool" where
  "tag_filter t r = (case t of None \<Rightarrow> True | Some x \<Rightarrow> tag r = Some x)"

text \<open>
  Modelled from the spec: the store's filtered list, which is not under \<^verbatim>\<open>src/\<close>
  (section 4.2: the user's rows, restricted to an exact tag match when a tag filter is
  given, ordered by \<open>updated_at\<close> descending; section 7: a malformed filter is a store
  failure). The \<^verbatim>\<open>or\<close> filter is the text the source builds, read as above.
\<close>

definition pg_select_list ::
  "string option \<Rightarrow> string option \<Rightarrow> string option \<Rightarrow> 'm db \<Rightarrow> item list reply \<times> 'm db" where
  "pg_select_list u t f d =
     (case f of
        None \<Rightarrow>
          (Inr (listing (\<lambda>r. eq_filter u (user_id r) \<and> tag_filter t r) d), d)
      | Some txt \<Rightarrow>
          (case parse_or txt of
             None \<Rightarrow> (Inl parse_failure, d)
           | Some conds \<Rightarrow>
               if \<exists>(col, pat) \<in> set conds. ends_in_escape pat then (Inl bad_escape, d)
               else
                 (Inr (listing (\<lambda>r. eq_filter u (user_id r) \<and> tag_filter t r
                                     \<and> any_condition conds r) d), d)))"

text \<open>
  Modelled from the spec: the Record Store of the server, which is not under \<^verbatim>\<open>src/\<close>:
  the five calls on the table.
\<close>

definition memories :: "('m db, 'm) store" where
  "memories =
     \<lparr>upsert = pg_upsert, select_single = pg_select_single, select_list = pg_select_list,
      delete_where = pg_delete_where, select_tags = pg_select_tags\<rparr>"

section \<open>Notions of the specification\<close>

text \<open>The names of the catalogue returned for \<^verbatim>\<open>ListToolsRequestSchema\<close>, in its order.\<close>

definition tool_names :: "string list" where
  "tool_names =
     [''create_memory'', ''get_memory'', ''list_memories'', ''forget_memory'', ''list_tags'']"

text \<open>The records of the table for a pair \<open>(user_id, memory_key)\<close>.\<close>

definition records_of :: "string \<Rightarrow> string \<Rightarrow> 'm db \<Rightarrow> 'm row list" where
  "records_of u k d = filter (\<lambda>r. user_id r = u \<and> memory_key r = k) (table_rows d)"

text \<open>An envelope is well formed when \<open>isError\<close> is set exactly on an error payload.\<close>

definition well_formed :: "'m envelope \<Rightarrow> bool" where
  "well_formed env =
     (isError env = (case payload env of Error_payload m \<Rightarrow> True | _ \<Rightarrow> False))"

text \<open>A store that is out of reach: every call is answered with the failure \<open>e\<close>.\<close>

definition failing_store :: "store_error \<Rightarrow> (nat, 'm) store" where
  "failing_store e =
     \<lparr>upsert = (\<lambda>p n. (Inl e, Suc n)),
      select_single = (\<lambda>u k n. (Inl e, Suc n)),
      select_list = (\<lambda>u t f n. (Inl e, Suc n)),
      delete_where = (\<lambda>u k n. (Inl e, Suc n)),
      select_tags = (\<lambda>u n. (Inl e, Suc n))\<rparr>"

text \<open>Sample values for the instances below.\<close>

definition refused :: store_error where
  "refused = \<lparr>message = ''connection refused'', code = []\<rparr>"

definition no_args :: "unit args" where
  "no_args =
     \<lparr>arg_user_id = None, arg_key = None, arg_content = None, arg_tag = None,
      arg_metadata = None, arg_search = None\<rparr>"

definition empty_db :: "unit db" where
  "empty_db = \<lparr>table_rows = [], clock = 0\<rparr>"

definition sample_args ::
  "string \<Rightarrow> string \<Rightarrow> string \<Rightarrow> string option \<Rightarrow> string option \<Rightarrow> unit args" where
  "sample_args u k c t f =
     \<lparr>arg_user_id = Some u, arg_key = Some k, arg_content = Some c, arg_tag = t,
      arg_metadata = None, arg_search = f\<rparr>"

definition sushi :: "unit args" where
  "sushi = sample_args ''u1'' ''favorite_food'' ''sushi'' (Some ''personal'') None"

definition ramen :: "unit args" where
  "ramen = sample_args ''u1'' ''favorite_food'' ''ramen'' (Some '''') None"

text \<open>The table after a tool call.\<close>

definition after :: "string \<Rightarrow> 'm args \<Rightarrow> 'm db \<Rightarrow> 'm db" where
  "after name a d = snd (call_tool memories name (Some a) d)"

definition curry_rice :: "unit args" where
  "curry_rice = sample_args ''u1'' ''lunch'' ''curry'' None None"

text \<open>Three writes: \<open>favorite_food\<close>, then \<open>lunch\<close>, then \<open>favorite_food\<close> again.\<close>

definition three_writes :: "unit db" where
  "three_writes =
     after ''create_memory'' ramen
       (after ''create_memory'' curry_rice (after ''create_memory'' sushi empty_db))"

text \<open>
  The tag list of the specification, after its words: one entry per distinct tag, in the
  order of the first occurrence of each tag among the returned rows, with the number of
  rows bearing the tag.
\<close>

fun first_occurrences :: "'a list \<Rightarrow> 'a list" where
  "first_occurrences [] = []"
| "first_occurrences (x # xs) = x # filter (\<lambda>y. y \<noteq> x) (first_occurrences xs)"

definition spec_tag_counts :: "string list \<Rightarrow> (string \<times> count) list" where
  "spec_tag_counts tags = map (\<lambda>t. (t, Num (count_list tags t))) (first_occurrences tags)"

text \<open>The non-null tags of a user's records, in table order.\<close>

definition user_tags :: "string \<Rightarrow> 'm db \<Rightarrow> string list" where
  "user_tags u d = List.map_filter tag (filter (\<lambda>r. user_id r = u) (table_rows d))"

text \<open>A user's table with the tags \<^verbatim>\<open>work\<close>, \<^verbatim>\<open>2024\<close>, \<^verbatim>\<open>work\<close>.\<close>

definition tagged :: "unit db" where
  "tagged =
     after ''create_memory'' (sample_args ''u1'' ''k3'' ''c'' (Some ''work'') None)
       (after ''create_memory'' (sample_args ''u1'' ''k2'' ''b'' (Some ''2024'') None)
         (after ''create_memory'' (sample_args ''u1'' ''k1'' ''a'' (Some ''work'') None)
            empty_db))"

text \<open>A user's table with the tags \<^verbatim>\<open>work\<close>, \<^verbatim>\<open>2024\<close>, \<^verbatim>\<open>7\<close>, \<^verbatim>\<open>work\<close>.\<close>

definition tagged_years :: "unit db" where
  "tagged_years =
     after ''create_memory'' (sample_args ''u1'' ''k4'' ''d'' (Some ''work'') None)
       (after ''create_memory'' (sample_args ''u1'' ''k3'' ''c'' (Some ''7'') None)
         (after ''create_memory'' (sample_args ''u1'' ''k2'' ''b'' (Some ''2024'') None)
           (after ''create_memory'' (sample_args ''u1'' ''k1'' ''a'' (Some ''work'') None)
              empty_db)))"

text \<open>
  Case-insensitive containment, after the words of the specification: \<open>contains_ci s t\<close>
  holds when the text \<open>t\<close> contains the term \<open>s\<close> up to the case of letters.
\<close>

fun has_prefix_ci :: "string \<Rightarrow> string \<Rightarrow> bool" where
  "has_prefix_ci [] t = True"
| "has_prefix_ci (c # cs) [] = False"
| "has_prefix_ci (c # cs) (x # xs) = (lower c = lower x \<and> has_prefix_ci cs xs)"

fun contains_ci :: "string \<Rightarrow> string \<Rightarrow> bool" where
  "contains_ci s [] = (s = [])"
| "contains_ci s (x # xs) = (has_prefix_ci s (x # xs) \<or> contains_ci s xs)"

text \<open>
  The records the specification lets \<^verbatim>\<open>list_memories\<close> return: those of the user with
  the tag, when a tag is given, and with the search term in \<open>memory_key\<close> or \<open>content\<close>,
  when a search term is given.
\<close>

definition spec_selected :: "'m args \<Rightarrow> 'm row \<Rightarrow> bool" where
  "spec_selected a r =
     (Some (user_id r) = arg_user_id a
      \<and> (if truthy (arg_tag a) then tag r = arg_tag a else True)
      \<and> (if truthy (arg_search a)
          then contains_ci (template (arg_search a)) (memory_key r)
               \<or> contains_ci (template (arg_search a)) (content r)
          else True))"

text \<open>
  The characters with a meaning of their own in a pattern or in the text of an \<^verbatim>\<open>or\<close>
  filter: the wildcards \<^verbatim>\<open>%\<close>, \<^verbatim>\<open>_\<close> and \<^verbatim>\<open>*\<close>, the escaping backslash, the comma
  and the closing parenthesis.
\<close>

definition special :: "char \<Rightarrow> bool" where
  "special c =
     (c = CHR ''%'' \<or> c = CHR ''_'' \<or> c = CHR ''*'' \<or> c = backslash \<or> c = CHR '',''
      \<or> c = CHR '')'')"

text \<open>One record of user \<^verbatim>\<open>u1\<close>, with the key \<^verbatim>\<open>home-address\<close>.\<close>

definition address_book :: "unit db" where
  "address_book =
     after ''create_memory'' (sample_args ''u1'' ''home-address'' ''12 Elm Street'' None None)
       empty_db"

definition address_search :: "unit args" where
  "address_search = sample_args ''u1'' [] [] None (Some ''home_address'')"

section \<open>The handler, for every store\<close>

lemma call_tool_Inr:
  "fst (call_tool st name arguments s) =
     (case fst (switch_name st name arguments s) of
        Inl m \<Rightarrow> Inr (error_envelope m) | Inr env \<Rightarrow> Inr env)"
  by (simp add: call_tool_def split: prod.split sum.split)

lemma create_memory_well_formed:
  "fst (create_memory st a s) = Inr env \<Longrightarrow> well_formed env"
  by (auto simp: create_memory_def well_formed_def split: prod.splits sum.splits)

lemma get_memory_well_formed:
  "fst (get_memory st a s) = Inr env \<Longrightarrow> well_formed env"
  by (auto simp: get_memory_def well_formed_def split: prod.splits sum.splits if_splits)

lemma list_memories_well_formed:
  "fst (list_memories st a s) = Inr env \<Longrightarrow> well_formed env"
  by (auto simp: list_memories_def well_formed_def split: prod.splits sum.splits)

lemma forget_memory_well_formed:
  "fst (forget_memory st a s) = Inr env \<Longrightarrow> well_formed env"
  by (auto simp: forget_memory_def well_formed_def split: prod.splits sum.splits)

lemma list_tags_well_formed:
  "fst (list_tags st a s) = Inr env \<Longrightarrow> well_formed env"
  by (auto simp: list_tags_def well_formed_def split: prod.splits sum.splits)

lemma destructure_well_formed:
  assumes "\<And>a s env. fst (body a s) = Inr env \<Longrightarrow> well_formed env"
    and "fst (destructure body arguments s) = Inr env"
  shows "well_formed env"
  using assms by (auto simp: destructure_def split: option.splits)

lemma switch_name_well_formed:
  "fst (switch_name st name arguments s) = Inr env \<Longrightarrow> well_formed env"
  unfolding switch_name_def
  by (auto split: if_splits
      intro: destructure_well_formed [where body = "create_memory st"]
        destructure_well_formed [where body = "get_memory st"]
        destructure_well_formed [where body = "list_memories st"]
        destructure_well_formed [where body = "forget_memory st"]
        destructure_well_formed [where body = "list_tags st"]
      create_memory_well_formed get_memory_well_formed list_memories_well_formed
      forget_memory_well_formed list_tags_well_formed)

lemma error_envelope_well_formed: "well_formed (error_envelope m)"
  by (simp add: error_envelope_def well_formed_def)

lemma call_tool_returns:
  "\<exists>env. fst (call_tool st name arguments s) = Inr env \<and> well_formed env"
  by (auto simp: call_tool_Inr error_envelope_well_formed switch_name_well_formed
      split: sum.split)

lemma switch_create:
  "switch_name st ''create_memory'' (Some a) s = create_memory st a s"
  by (simp add: switch_name_def destructure_def)
lemma switch_get:
  "switch_name st ''get_memory'' (Some a) s = get_memory st a s"
  by (simp add: switch_name_def destructure_def)
lemma switch_list:
  "switch_name st ''list_memories'' (Some a) s = list_memories st a s"
  by (simp add: switch_name_def destructure_def)
lemma switch_forget:
  "switch_name st ''forget_memory'' (Some a) s = forget_memory st a s"
  by (simp add: switch_name_def destructure_def)
lemma switch_tags:
  "switch_name st ''list_tags'' (Some a) s = list_tags st a s"
  by (simp add: switch_name_def destructure_def)

lemma switch_unknown:
  "name \<notin> set tool_names \<Longrightarrow>
     switch_name st name arguments s = (Inl (Msg (''Unknown tool: '' @ name)), s)"
  by (simp add: switch_name_def tool_names_def)

lemma create_memory_failure:
  "fst (upsert st (create_memory_row a) s) = Inl e \<Longrightarrow>
     fst (create_memory st a s) = Inl (database_error e)"
  by (auto simp: create_memory_def split: prod.splits sum.splits)

lemma get_memory_failure:
  "fst (select_single st (arg_user_id a) (arg_key a) s) = Inl e \<Longrightarrow> code e \<noteq> ''PGRST116'' \<Longrightarrow>
     fst (get_memory st a s) = Inl (database_error e)"
  by (auto simp: get_memory_def split: prod.splits sum.splits)

lemma list_memories_failure:
  "fst (select_list st (arg_user_id a) (tag_argument a) (or_argument a) s) = Inl e \<Longrightarrow>
     fst (list_memories st a s) = Inl (database_error e)"
  by (auto simp: list_memories_def split: prod.splits sum.splits)

lemma forget_memory_failure:
  "fst (delete_where st (arg_user_id a) (arg_key a) s) = Inl e \<Longrightarrow>
     fst (forget_memory st a s) = Inl (database_error e)"
  by (auto simp: forget_memory_def split: prod.splits sum.splits)

lemma list_tags_failure:
  "fst (select_tags st (arg_user_id a) s) = Inl e \<Longrightarrow>
     fst (list_tags st a s) = Inl (database_error e)"
  by (auto simp: list_tags_def split: prod.splits sum.splits)

text \<open>
  Claim C5. Whatever the operation name, the arguments and the store, the handler returns a
  well-formed envelope and no exception leaves it. A failure in the reply of the store's
  call, for each of the five tools, is returned as an error payload with \<open>isError\<close> set
  whose message is \<^verbatim>\<open>Database error: \<close> followed by the failure's message; for
  \<^verbatim>\<open>get_memory\<close> this holds for every failure whose code is not that of the
  no-matching-row outcome.
\<close>

theorem store_failure_envelope:
  "(\<exists>env. fst (call_tool st name arguments s) = Inr env \<and> well_formed env)
   \<and> (fst (upsert st (create_memory_row a) s) = Inl e \<longrightarrow>
        fst (call_tool st ''create_memory'' (Some a) s)
          = Inr \<lparr>payload = Error_payload (Msg (''Database error: '' @ message e)),
                 isError = True\<rparr>)
   \<and> (fst (select_single st (arg_user_id a) (arg_key a) s) = Inl e \<and> code e \<noteq> ''PGRST116'' \<longrightarrow>
        fst (call_tool st ''get_memory'' (Some a) s)
          = Inr \<lparr>payload = Error_payload (Msg (''Database error: '' @ message e)),
                 isError = True\<rparr>)
   \<and> (fst (select_list st (arg_user_id a) (tag_argument a) (or_argument a) s) = Inl e \<longrightarrow>
        fst (call_tool st ''list_memories'' (Some a) s)
          = Inr \<lparr>payload = Error_payload (Msg (''Database error: '' @ message e)),
                 isError = True\<rparr>)
   \<and> (fst (delete_where st (arg_user_id a) (arg_key a) s) = Inl e \<longrightarrow>
        fst (call_tool st ''forget_memory'' (Some a) s)
          = Inr \<lparr>payload = Error_payload (Msg (''Database error: '' @ message e)),
                 isError = True\<rparr>)
   \<and> (fst (select_tags st (arg_user_id a) s) = Inl e \<longrightarrow>
        fst (call_tool st ''list_tags'' (Some a) s)
          = Inr \<lparr>payload = Error_payload (Msg (''Database error: '' @ message e)),
                 isError = True\<rparr>)"
proof (intro conjI impI)
  show "\<exists>env. fst (call_tool st name arguments s) = Inr env \<and> well_formed env"
    by (rule call_tool_returns)
qed (simp_all add: call_tool_Inr switch_create switch_get switch_list
      switch_forget switch_tags create_memory_failure get_memory_failure
      list_memories_failure forget_memory_failure list_tags_failure
      error_envelope_def database_error_def)

theorem store_failure_envelope_witness:
  "fst (upsert (failing_store refused) (create_memory_row no_args) 0) = Inl refused
   \<and> fst (select_single (failing_store refused) (arg_user_id no_args) (arg_key no_args) 0)
       = Inl refused
   \<and> code refused \<noteq> ''PGRST116''
   \<and> fst (call_tool (failing_store refused) ''create_memory'' (Some no_args) 0)
     = Inr \<lparr>payload = Error_payload (Msg ''Database error: connection refused''), isError = True\<rparr>
   \<and> fst (call_tool (failing_store refused) ''get_memory'' (Some no_args) 0)
     = Inr \<lparr>payload = Error_payload (Msg ''Database error: connection refused''), isError = True\<rparr>
   \<and> fst (call_tool (failing_store refused) ''list_memories'' (Some no_args) 0)
     = Inr \<lparr>payload = Error_payload (Msg ''Database error: connection refused''), isError = True\<rparr>
   \<and> fst (call_tool (failing_store refused) ''forget_memory'' (Some no_args) 0)
     = Inr \<lparr>payload = Error_payload (Msg ''Database error: connection refused''), isError = True\<rparr>
   \<and> fst (call_tool (failing_store refused) ''list_tags'' (Some no_args) 0)
     = Inr \<lparr>payload = Error_payload (Msg ''Database error: connection refused''), isError = True\<rparr>"
  using store_failure_envelope [of "failing_store refused" "''list_tags''" "Some no_args" 0 no_args refused]
  by (simp add: failing_store_def refused_def)

text \<open>
  Claim C9. For a name that is not one of the five catalogue names the handler returns the
  error envelope with the message \<^verbatim>\<open>Unknown tool: \<close> followed by the name, and the
  store is left as it was: this holds for every store, also one that changes state on each
  call, so no call is made.
\<close>

theorem unknown_tool:
  "name \<notin> set tool_names \<Longrightarrow>
     call_tool st name arguments s
       = (Inr \<lparr>payload = Error_payload (Msg (''Unknown tool: '' @ name)), isError = True\<rparr>, s)"
  by (simp add: call_tool_def switch_unknown error_envelope_def)

theorem unknown_tool_witness:
  "''delete_all'' \<notin> set tool_names
   \<and> call_tool (failing_store refused) ''delete_all'' (Some no_args) 0
       = (Inr \<lparr>payload = Error_payload (Msg ''Unknown tool: delete_all''), isError = True\<rparr>, 0)"
  using unknown_tool [of "''delete_all''" "failing_store refused" "Some no_args" 0]
  by (simp add: tool_names_def)

section \<open>The handler on the table\<close>

lemma memories_simps [simp]:
  "upsert memories = pg_upsert"
  "select_single memories = pg_select_single"
  "select_list memories = pg_select_list"
  "delete_where memories = pg_delete_where"
  "select_tags memories = pg_select_tags"
  by (simp_all add: memories_def)

lemma has_key_Some [simp]:
  "has_key (Some u) (Some k) r = (user_id r = u \<and> memory_key r = k)"
  by (simp add: has_key_def eq_filter_def template_def)

lemma filter_has_key: "filter (has_key (Some u) (Some k)) (table_rows d) = records_of u k d"
  by (simp add: records_of_def cong: filter_cong)

lemma distinct_map_filter_le1:
  "distinct (map f xs) \<Longrightarrow> length (filter (\<lambda>x. f x = y) xs) \<le> Suc 0"
proof (induction xs)
  case Nil
  then show ?case by simp
next
  case (Cons x xs)
  show ?case
  proof (cases "f x = y")
    case True
    with Cons.prems have "\<forall>z \<in> set xs. f z \<noteq> y" by (auto simp: image_iff)
    then have "filter (\<lambda>x. f x = y) xs = []" by (simp add: filter_empty_conv)
    with True show ?thesis by simp
  next
    case False
    with Cons show ?thesis by simp
  qed
qed

lemma records_of_le1: "unique_keys d \<Longrightarrow> length (records_of u k d) \<le> Suc 0"
  using distinct_map_filter_le1 [of "\<lambda>r. (user_id r, memory_key r)" "table_rows d" "(u, k)"]
  by (simp add: unique_keys_def records_of_def)

lemma records_of_empty_conv:
  "(records_of u k d = []) = (\<not> (\<exists>r \<in> set (table_rows d). user_id r = u \<and> memory_key r = k))"
  by (auto simp: records_of_def filter_empty_conv)

lemma pg_upsert_records:
  assumes "unique_keys d" "new_user_id p = Some u" "new_memory_key p = Some k"
    "new_content p = Some c"
  shows "\<exists>ca. records_of u k (snd (pg_upsert p d))
           = [\<lparr>user_id = u, memory_key = k, content = c, tag = new_tag p,
               metadata = new_metadata p, created_at = ca, updated_at = clock d\<rparr>]"
proof (cases "\<exists>r \<in> set (table_rows d). user_id r = u \<and> memory_key r = k")
  case True
  then have "records_of u k d \<noteq> []" by (simp add: records_of_empty_conv)
  with records_of_le1 [OF assms(1), of u k] obtain r0 where r0: "records_of u k d = [r0]"
    by (cases "records_of u k d") auto
  then have "r0 \<in> set (records_of u k d)" by simp
  then have k0: "user_id r0 = u" "memory_key r0 = k" by (simp_all add: records_of_def)
  let ?upd = "\<lambda>r. if user_id r = u \<and> memory_key r = k
                   then r\<lparr>content := c, tag := new_tag p, metadata := new_metadata p,
                          updated_at := clock d\<rparr>
                   else r"
  have "filter (\<lambda>r. user_id r = u \<and> memory_key r = k) (map ?upd xs)
          = map ?upd (filter (\<lambda>r. user_id r = u \<and> memory_key r = k) xs)" for xs :: "'a row list"
    by (induction xs) auto
  then have "records_of u k (snd (pg_upsert p d)) = map ?upd (records_of u k d)"
    using True assms by (simp add: pg_upsert_def records_of_def Let_def)
  with r0 k0 show ?thesis
    by (intro exI [of _ "created_at r0"]) (cases r0, simp)
next
  case False
  then have "records_of u k d = []" by (simp add: records_of_empty_conv)
  with False assms show ?thesis
    by (auto simp: pg_upsert_def records_of_def Let_def)
qed

lemma pg_upsert_unique:
  assumes "unique_keys d"
  shows "unique_keys (snd (pg_upsert p d))"
proof -
  have *: "map ((\<lambda>r. (user_id r, memory_key r)) \<circ>
         (\<lambda>r. if user_id r = u \<and> memory_key r = k
                    then r\<lparr>content := c, tag := t, metadata := m, updated_at := n\<rparr> else r)) xs
       = map (\<lambda>r. (user_id r, memory_key r)) xs" for u k c t m n and xs :: "'a row list"
    by (induction xs) auto
  show ?thesis
    using assms
    by (auto simp: pg_upsert_def unique_keys_def Let_def * split: option.splits)
qed

lemma pg_delete_unique: "unique_keys d \<Longrightarrow> unique_keys (snd (pg_delete_where u k d))"
  by (simp add: pg_delete_where_def unique_keys_def distinct_map_filter)

lemma empty_unique: "unique_keys \<lparr>table_rows = [], clock = n\<rparr>"
  by (simp add: unique_keys_def)

lemma call_create:
  "call_tool memories ''create_memory'' (Some a) d
     = (case pg_upsert (create_memory_row a) d of
          (Inl e, d') \<Rightarrow> (Inr (error_envelope (database_error e)), d')
        | (Inr rs, d') \<Rightarrow>
            (Inr \<lparr>payload = Status_payload ''success''
                    (''Memory '' @ apostrophe @ template (arg_key a) @ apostrophe
                       @ '' saved successfully'') (arg_key a),
                  isError = False\<rparr>, d'))"
  by (simp add: call_tool_def switch_create create_memory_def split: prod.splits sum.splits)

lemma pg_upsert_succeeds:
  assumes "new_user_id p = Some u" "new_memory_key p = Some k" "new_content p = Some c"
  shows "\<exists>rs. fst (pg_upsert p d) = Inr rs"
  using assms by (simp add: pg_upsert_def Let_def)

lemma call_get_hit:
  assumes "arg_user_id b = Some u" "arg_key b = Some k" "records_of u k d = [r]"
  shows "call_tool memories ''get_memory'' (Some b) d
     = (Inr \<lparr>payload = Memory_payload (memory_key r) (content r) (tag r) (metadata r)
                (created_at r) (updated_at r), isError = False\<rparr>, d)"
  using assms
  by (simp add: call_tool_def switch_get get_memory_def pg_select_single_def filter_has_key)

lemma call_get_miss:
  assumes "arg_user_id b = Some u" "arg_key b = Some k" "records_of u k d = []"
  shows "call_tool memories ''get_memory'' (Some b) d
     = (Inr \<lparr>payload = Status_payload ''not_found''
                (''No memory found with key '' @ apostrophe @ k @ apostrophe) None,
              isError = False\<rparr>, d)"
  using assms
  by (simp add: call_tool_def switch_get get_memory_def pg_select_single_def filter_has_key
      no_rows_def template_def)

lemma call_forget:
  assumes "arg_user_id b = Some u" "arg_key b = Some k"
  shows "call_tool memories ''forget_memory'' (Some b) d
     = (Inr \<lparr>payload = Status_payload ''success''
                (''Memory '' @ apostrophe @ k @ apostrophe @ '' deleted successfully'')
                (Some k),
              isError = False\<rparr>,
        d\<lparr>table_rows := filter (\<lambda>r. \<not> (user_id r = u \<and> memory_key r = k)) (table_rows d)\<rparr>)"
  using assms
  by (simp add: call_tool_def switch_forget forget_memory_def pg_delete_where_def template_def)

lemma after_create:
  "after ''create_memory'' a d = snd (pg_upsert (create_memory_row a) d)"
  by (simp add: after_def call_create split: prod.splits sum.splits)

text \<open>
  Claim C1. On a table that satisfies the uniqueness constraint, \<^verbatim>\<open>create_memory\<close> with
  a user, a key and a content returns the success payload, and \<^verbatim>\<open>get_memory\<close> with
  the same user and key on the table it leaves returns the record, whose \<open>content\<close> is the
  content that was passed (with the tag and metadata as stored, and \<open>updated_at\<close> the
  store's time of the write).
\<close>

theorem create_then_get:
  assumes "unique_keys d" "arg_user_id a = Some u" "arg_key a = Some k"
    "arg_content a = Some c" "arg_user_id b = Some u" "arg_key b = Some k"
  shows "\<exists>ca.
     call_tool memories ''create_memory'' (Some a) d
       = (Inr \<lparr>payload = Status_payload ''success''
                  (''Memory '' @ apostrophe @ k @ apostrophe @ '' saved successfully'')
                  (Some k),
                isError = False\<rparr>, after ''create_memory'' a d)
     \<and> call_tool memories ''get_memory'' (Some b) (after ''create_memory'' a d)
       = (Inr \<lparr>payload = Memory_payload k c (or_null (arg_tag a)) (arg_metadata a) ca (clock d),
                isError = False\<rparr>, after ''create_memory'' a d)"
proof -
  let ?p = "create_memory_row a"
  have p: "new_user_id ?p = Some u" "new_memory_key ?p = Some k" "new_content ?p = Some c"
    using assms by (simp_all add: create_memory_row_def)
  obtain rs where rs: "fst (pg_upsert ?p d) = Inr rs"
    using pg_upsert_succeeds [OF p] by blast
  obtain ca where ca: "records_of u k (snd (pg_upsert ?p d))
      = [\<lparr>user_id = u, memory_key = k, content = c, tag = new_tag ?p,
          metadata = new_metadata ?p, created_at = ca, updated_at = clock d\<rparr>]"
    using pg_upsert_records [OF assms(1) p] by blast
  have 1: "call_tool memories ''create_memory'' (Some a) d
       = (Inr \<lparr>payload = Status_payload ''success''
                  (''Memory '' @ apostrophe @ k @ apostrophe @ '' saved successfully'')
                  (Some k),
                isError = False\<rparr>, after ''create_memory'' a d)"
    using rs assms(3)
    by (cases "pg_upsert ?p d") (simp add: call_create after_create template_def)
  have 2: "call_tool memories ''get_memory'' (Some b) (after ''create_memory'' a d)
       = (Inr \<lparr>payload = Memory_payload k c (or_null (arg_tag a)) (arg_metadata a) ca (clock d),
                isError = False\<rparr>, after ''create_memory'' a d)"
    using call_get_hit [OF assms(5,6), of "after ''create_memory'' a d"] ca
    by (simp add: after_create create_memory_row_def)
  from 1 2 show ?thesis by blast
qed

theorem create_then_get_witness:
  "unique_keys empty_db \<and> arg_user_id sushi = Some ''u1'' \<and> arg_key sushi = Some ''favorite_food''
   \<and> arg_content sushi = Some ''sushi''
   \<and> call_tool memories ''get_memory'' (Some sushi) (after ''create_memory'' sushi empty_db)
       = (Inr \<lparr>payload = Memory_payload ''favorite_food'' ''sushi'' (Some ''personal'') None 0 0,
                isError = False\<rparr>, after ''create_memory'' sushi empty_db)"
proof -
  have h: "unique_keys empty_db" "arg_user_id sushi = Some ''u1''"
    "arg_key sushi = Some ''favorite_food''" "arg_content sushi = Some ''sushi''"
    by (simp_all add: empty_db_def unique_keys_def sushi_def sample_args_def)
  have t: "or_null (arg_tag sushi) = Some ''personal''" "arg_metadata sushi = None"
    by (simp_all add: sushi_def sample_args_def or_null_def truthy_def)
  have r: "records_of ''u1'' ''favorite_food'' (after ''create_memory'' sushi empty_db)
     = [\<lparr>user_id = ''u1'', memory_key = ''favorite_food'', content = ''sushi'',
         tag = Some ''personal'', metadata = None, created_at = 0, updated_at = 0\<rparr>]"
    by (simp add: after_create create_memory_row_def pg_upsert_def records_of_def sushi_def
        sample_args_def empty_db_def or_null_def truthy_def Let_def)
  from create_then_get [OF h h(2,3)] obtain ca where
    "call_tool memories ''get_memory'' (Some sushi) (after ''create_memory'' sushi empty_db)
       = (Inr \<lparr>payload = Memory_payload ''favorite_food'' ''sushi'' (or_null (arg_tag sushi))
                  (arg_metadata sushi) ca (clock empty_db), isError = False\<rparr>,
          after ''create_memory'' sushi empty_db)"
    by blast
  moreover have "call_tool memories ''get_memory'' (Some sushi) (after ''create_memory'' sushi empty_db)
       = (Inr \<lparr>payload = Memory_payload ''favorite_food'' ''sushi'' (Some ''personal'') None 0 0,
                isError = False\<rparr>, after ''create_memory'' sushi empty_db)"
    using call_get_hit [OF h(2,3) r] by simp
  ultimately show ?thesis using h by simp
qed

text \<open>
  Claim C2, amended. After two \<^verbatim>\<open>create_memory\<close> calls for the same user and key, the
  table holds exactly one record for the pair; its content and metadata are those of the
  second call, and its tag is the second call's tag when that is a non-empty string and
  null when it is absent or the empty string.
\<close>

theorem create_twice:
  assumes "unique_keys d"
    and "arg_user_id a1 = Some u" "arg_key a1 = Some k" "arg_content a1 = Some c1"
    and "arg_user_id a2 = Some u" "arg_key a2 = Some k" "arg_content a2 = Some c2"
  shows "\<exists>r. records_of u k (after ''create_memory'' a2 (after ''create_memory'' a1 d)) = [r]
           \<and> content r = c2
           \<and> tag r = (case arg_tag a2 of None \<Rightarrow> None
                       | Some t \<Rightarrow> if t = [] then None else Some t)
           \<and> metadata r = arg_metadata a2"
proof -
  let ?d1 = "after ''create_memory'' a1 d"
  let ?p = "create_memory_row a2"
  have u1: "unique_keys ?d1"
    using assms(1) by (simp add: after_create pg_upsert_unique)
  have p: "new_user_id ?p = Some u" "new_memory_key ?p = Some k" "new_content ?p = Some c2"
    using assms by (simp_all add: create_memory_row_def)
  have t: "new_tag ?p = (case arg_tag a2 of None \<Rightarrow> None
                       | Some t \<Rightarrow> if t = [] then None else Some t)"
    by (simp add: create_memory_row_def or_null_def truthy_def split: option.splits)
  from pg_upsert_records [OF u1 p] t show ?thesis
    by (auto simp: after_create create_memory_row_def)
qed

theorem create_twice_witness:
  "unique_keys empty_db
   \<and> arg_user_id sushi = Some ''u1'' \<and> arg_key sushi = Some ''favorite_food''
   \<and> arg_content sushi = Some ''sushi'' \<and> arg_tag sushi = Some ''personal''
   \<and> arg_user_id ramen = Some ''u1'' \<and> arg_key ramen = Some ''favorite_food''
   \<and> arg_content ramen = Some ''ramen'' \<and> arg_tag ramen = Some []
   \<and> map content (records_of ''u1'' ''favorite_food''
          (after ''create_memory'' ramen (after ''create_memory'' sushi empty_db))) = [''ramen'']
   \<and> map tag (records_of ''u1'' ''favorite_food''
          (after ''create_memory'' ramen (after ''create_memory'' sushi empty_db))) = [None]
   \<and> map content (records_of ''u1'' ''favorite_food''
          (after ''create_memory'' sushi (after ''create_memory'' ramen empty_db))) = [''sushi'']
   \<and> map tag (records_of ''u1'' ''favorite_food''
          (after ''create_memory'' sushi (after ''create_memory'' ramen empty_db)))
         = [Some ''personal'']"
proof -
  have h: "unique_keys empty_db" "arg_user_id sushi = Some ''u1''"
    "arg_key sushi = Some ''favorite_food''" "arg_content sushi = Some ''sushi''"
    "arg_user_id ramen = Some ''u1''"
    "arg_key ramen = Some ''favorite_food''" "arg_content ramen = Some ''ramen''"
    by (simp_all add: empty_db_def unique_keys_def sushi_def ramen_def sample_args_def)
  have t: "arg_tag sushi = Some ''personal''" "arg_tag ramen = Some []"
    by (simp_all add: sushi_def ramen_def sample_args_def)
  from create_twice [OF h] create_twice [OF h(1) h(5-7) h(2-4)] t h
  show ?thesis by auto
qed

text \<open>
  Claim C2 as stated fails where the second call passes the empty string as tag: the
  record's tag is then null, not the value of the call.
\<close>

theorem create_twice_counterexample:
  "map tag (records_of ''u1'' ''favorite_food''
      (after ''create_memory'' ramen (after ''create_memory'' sushi empty_db)))
     \<noteq> [arg_tag ramen]"
  by (simp add: after_create create_memory_row_def pg_upsert_def records_of_def sushi_def
        ramen_def sample_args_def empty_db_def or_null_def truthy_def Let_def)

text \<open>
  Claim C3. When the table holds no record for the user and key, \<^verbatim>\<open>get_memory\<close>
  returns the payload \<^verbatim>\<open>{status: 'not_found', message}\<close> without \<open>isError\<close>. For
  every store, a failure of the point lookup whose code is not \<^verbatim>\<open>PGRST116\<close> is
  returned as an error envelope.
\<close>

theorem get_memory_not_found:
  "(arg_user_id a = Some u \<and> arg_key a = Some k \<and> records_of u k d = [] \<longrightarrow>
      call_tool memories ''get_memory'' (Some a) d
        = (Inr \<lparr>payload = Status_payload ''not_found''
                   (''No memory found with key '' @ apostrophe @ k @ apostrophe) None,
                 isError = False\<rparr>, d))
   \<and> (fst (select_single st (arg_user_id b) (arg_key b) s) = Inl e \<and> code e \<noteq> ''PGRST116'' \<longrightarrow>
        fst (call_tool st ''get_memory'' (Some b) s)
          = Inr \<lparr>payload = Error_payload (Msg (''Database error: '' @ message e)),
                 isError = True\<rparr>)"
  by (simp add: call_get_miss call_tool_Inr switch_get get_memory_failure error_envelope_def
      database_error_def)

theorem get_memory_not_found_witness:
  "records_of ''u1'' ''nonexistent'' empty_db = []
   \<and> call_tool memories ''get_memory'' (Some (sample_args ''u1'' ''nonexistent'' [] None None))
        empty_db
       = (Inr \<lparr>payload = Status_payload ''not_found''
                  (''No memory found with key '' @ apostrophe @ ''nonexistent'' @ apostrophe)
                  None,
                isError = False\<rparr>, empty_db)
   \<and> code refused \<noteq> ''PGRST116''
   \<and> fst (call_tool (failing_store refused) ''get_memory'' (Some no_args) 0)
       = Inr \<lparr>payload = Error_payload (Msg ''Database error: connection refused''),
              isError = True\<rparr>"
  using get_memory_not_found [of "sample_args ''u1'' ''nonexistent'' [] None None" "''u1''"
      "''nonexistent''" empty_db "failing_store refused" no_args 0 refused]
  by (simp add: sample_args_def records_of_def empty_db_def failing_store_def refused_def)

text \<open>
  Claim C4. \<^verbatim>\<open>forget_memory\<close> returns the payload \<^verbatim>\<open>{status: 'success', message, key}\<close>
  on every table, the same whether or not the table holds a record for the pair; the table
  it leaves holds no record for the pair, and \<^verbatim>\<open>get_memory\<close> on it returns the
  \<^verbatim>\<open>not_found\<close> payload, not an error.
\<close>

theorem forget_then_get:
  assumes "arg_user_id a = Some u" "arg_key a = Some k"
    and "arg_user_id b = Some u" "arg_key b = Some k"
  shows "call_tool memories ''forget_memory'' (Some a) d
       = (Inr \<lparr>payload = Status_payload ''success''
                  (''Memory '' @ apostrophe @ k @ apostrophe @ '' deleted successfully'')
                  (Some k),
                isError = False\<rparr>, after ''forget_memory'' a d)
     \<and> fst (call_tool memories ''forget_memory'' (Some a) d)
       = fst (call_tool memories ''forget_memory'' (Some a) d0)
     \<and> records_of u k (after ''forget_memory'' a d) = []
     \<and> call_tool memories ''get_memory'' (Some b) (after ''forget_memory'' a d)
       = (Inr \<lparr>payload = Status_payload ''not_found''
                  (''No memory found with key '' @ apostrophe @ k @ apostrophe) None,
                isError = False\<rparr>, after ''forget_memory'' a d)"
proof -
  have r: "records_of u k (after ''forget_memory'' a d) = []"
    using assms(1,2) by (simp add: after_def call_forget records_of_def)
  show ?thesis
    using assms(1,2) r call_get_miss [OF assms(3,4) r]
    by (simp add: call_forget after_def)
qed

theorem forget_then_get_witness:
  "arg_user_id sushi = Some ''u1'' \<and> arg_key sushi = Some ''favorite_food''
   \<and> fst (call_tool memories ''forget_memory'' (Some sushi) (after ''create_memory'' sushi empty_db))
       = fst (call_tool memories ''forget_memory'' (Some sushi) empty_db)
   \<and> records_of ''u1'' ''favorite_food''
        (after ''forget_memory'' sushi (after ''create_memory'' sushi empty_db)) = []
   \<and> fst (call_tool memories ''get_memory'' (Some sushi)
        (after ''forget_memory'' sushi (after ''create_memory'' sushi empty_db)))
       = Inr \<lparr>payload = Status_payload ''not_found''
                  (''No memory found with key '' @ apostrophe @ ''favorite_food'' @ apostrophe)
                  None,
              isError = False\<rparr>"
proof -
  have h: "arg_user_id sushi = Some ''u1''" "arg_key sushi = Some ''favorite_food''"
    by (simp_all add: sushi_def sample_args_def)
  from forget_then_get [OF h h, of "after ''create_memory'' sushi empty_db" empty_db] h
  show ?thesis by (simp add: call_forget [OF h])
qed

lemma call_list:
  "call_tool memories ''list_memories'' (Some a) d
     = (case pg_select_list (arg_user_id a) (tag_argument a) (or_argument a) d of
          (Inl e, d') \<Rightarrow> (Inr (error_envelope (database_error e)), d')
        | (Inr items, d') \<Rightarrow>
            (Inr \<lparr>payload = List_payload (length items) items, isError = False\<rparr>, d'))"
  by (simp add: call_tool_def switch_list list_memories_def split: prod.splits sum.splits)

lemma pg_select_list_cases:
  "(\<exists>e. pg_select_list v t f d = (Inl e, d))
   \<or> (\<exists>P. pg_select_list v t f d = (Inr (listing (\<lambda>r. eq_filter v (user_id r) \<and> P r) d), d))"
proof (cases f)
  case None
  then have "pg_select_list v t f d
      = (Inr (listing (\<lambda>r. eq_filter v (user_id r) \<and> tag_filter t r) d), d)"
    by (simp add: pg_select_list_def)
  then show ?thesis
    by (intro disjI2 exI [of _ "tag_filter t"]) simp
next
  case (Some filter_text)
  show ?thesis
  proof (cases "parse_or filter_text")
    case None
    with Some show ?thesis by (simp add: pg_select_list_def)
  next
    case (Some conds)
    show ?thesis
    proof (cases "\<exists>(col, pat) \<in> set conds. ends_in_escape pat")
      case True
      with \<open>f = Some filter_text\<close> Some show ?thesis by (simp add: pg_select_list_def)
    next
      case False
      with \<open>f = Some filter_text\<close> Some have "pg_select_list v t f d
        = (Inr (listing (\<lambda>r. eq_filter v (user_id r)
              \<and> (tag_filter t r \<and> any_condition conds r)) d), d)"
        by (simp add: pg_select_list_def)
      then show ?thesis
        by (intro disjI2 exI [of _ "\<lambda>r. tag_filter t r \<and> any_condition conds r"]) simp
    qed
  qed
qed

lemma sorted_desc:
  "sorted_wrt (\<lambda>x y. y \<le> x) (map updated_at (sort_key (\<lambda>r. - int (updated_at r)) xs))"
proof -
  have "sorted (map (\<lambda>r. - int (updated_at r)) (sort_key (\<lambda>r. - int (updated_at r)) xs))"
    by (rule sorted_sort_key)
  then show ?thesis
    by (simp add: sorted_wrt_map)
qed

lemma listing_sorted:
  "sorted_wrt (\<lambda>x y. y \<le> x) (map item_updated_at (listing P d))"
  using sorted_desc [of "filter P (table_rows d)"]
  by (simp add: listing_def project_def comp_def)

lemma listing_rows:
  "\<exists>rs. listing P d = map project rs \<and> set rs = {r \<in> set (table_rows d). P r}
        \<and> length rs = length (filter P (table_rows d))"
  by (rule exI [of _ "sort_key (\<lambda>r. - int (updated_at r)) (filter P (table_rows d))"])
    (simp add: listing_def)

text \<open>
  Claim C7. The list that \<^verbatim>\<open>list_memories\<close> returns for a user is in descending order of
  \<open>updated_at\<close>, consists of the projections to \<open>memory_key\<close>, \<open>content\<close>, \<open>tag\<close>,
  \<open>created_at\<close> and \<open>updated_at\<close> of records of that user, and \<open>count\<close> is its length.
  Without a tag and a search term the call succeeds and lists all records of the user.
\<close>

theorem list_memories_order:
  "(arg_user_id a = Some u
      \<and> fst (call_tool memories ''list_memories'' (Some a) d)
          = Inr \<lparr>payload = List_payload n items, isError = False\<rparr> \<longrightarrow>
      n = length items
      \<and> sorted_wrt (\<lambda>x y. y \<le> x) (map item_updated_at items)
      \<and> (\<exists>rs. items = map project rs
               \<and> set rs \<subseteq> {r \<in> set (table_rows d). user_id r = u}))
   \<and> (arg_user_id a = Some u \<and> \<not> truthy (arg_tag a) \<and> \<not> truthy (arg_search a) \<longrightarrow>
        call_tool memories ''list_memories'' (Some a) d
          = (Inr \<lparr>payload = List_payload (length (listing (\<lambda>r. user_id r = u) d))
                              (listing (\<lambda>r. user_id r = u) d),
                   isError = False\<rparr>, d))"
proof (rule conjI; rule impI)
  assume h: "arg_user_id a = Some u
      \<and> fst (call_tool memories ''list_memories'' (Some a) d)
          = Inr \<lparr>payload = List_payload n items, isError = False\<rparr>"
  from pg_select_list_cases [of "arg_user_id a" "tag_argument a" "or_argument a" d]
  obtain P where P: "pg_select_list (arg_user_id a) (tag_argument a) (or_argument a) d
       = (Inr (listing (\<lambda>r. eq_filter (arg_user_id a) (user_id r) \<and> P r) d), d)"
    using h by (auto simp: call_list error_envelope_def)
  let ?Q = "\<lambda>r. eq_filter (arg_user_id a) (user_id r) \<and> P r"
  from h P have items: "items = listing ?Q d" and n: "n = length items"
    by (auto simp: call_list)
  from listing_rows [of ?Q d] obtain rs where
    rs: "listing ?Q d = map project rs" "set rs = {r \<in> set (table_rows d). ?Q r}"
    by blast
  from h have "set rs \<subseteq> {r \<in> set (table_rows d). user_id r = u}"
    by (auto simp: rs(2) eq_filter_def template_def)
  with rs(1) items
  have "\<exists>rs. items = map project rs \<and> set rs \<subseteq> {r \<in> set (table_rows d). user_id r = u}"
    by blast
  with n items listing_sorted [of ?Q d]
  show "n = length items
      \<and> sorted_wrt (\<lambda>x y. y \<le> x) (map item_updated_at items)
      \<and> (\<exists>rs. items = map project rs
               \<and> set rs \<subseteq> {r \<in> set (table_rows d). user_id r = u})"
    by simp
next
  assume "arg_user_id a = Some u \<and> \<not> truthy (arg_tag a) \<and> \<not> truthy (arg_search a)"
  then show "call_tool memories ''list_memories'' (Some a) d
          = (Inr \<lparr>payload = List_payload (length (listing (\<lambda>r. user_id r = u) d))
                              (listing (\<lambda>r. user_id r = u) d),
                   isError = False\<rparr>, d)"
    by (simp add: call_list pg_select_list_def tag_argument_def or_argument_def
        tag_filter_def eq_filter_def template_def)
qed

lemma three_writes_eq:
  "three_writes =
     \<lparr>table_rows =
        [\<lparr>user_id = ''u1'', memory_key = ''favorite_food'', content = ''ramen'', tag = None,
          metadata = None, created_at = 0, updated_at = 2\<rparr>,
         \<lparr>user_id = ''u1'', memory_key = ''lunch'', content = ''curry'', tag = None,
          metadata = None, created_at = 1, updated_at = 1\<rparr>],
      clock = 3\<rparr>"
  by (simp add: three_writes_def after_create create_memory_row_def pg_upsert_def sushi_def
      ramen_def curry_rice_def sample_args_def empty_db_def or_null_def truthy_def Let_def)

theorem list_memories_order_witness:
  "arg_user_id curry_rice = Some ''u1''
   \<and> fst (call_tool memories ''list_memories'' (Some curry_rice) three_writes)
       = Inr \<lparr>payload = List_payload 2
                 [\<lparr>item_memory_key = ''favorite_food'', item_content = ''ramen'',
                   item_tag = None, item_created_at = 0, item_updated_at = 2\<rparr>,
                  \<lparr>item_memory_key = ''lunch'', item_content = ''curry'',
                   item_tag = None, item_created_at = 1, item_updated_at = 1\<rparr>],
              isError = False\<rparr>
   \<and> sorted_wrt (\<lambda>x y. y \<le> x) (map item_updated_at
        [\<lparr>item_memory_key = ''favorite_food'', item_content = ''ramen'',
          item_tag = None, item_created_at = 0, item_updated_at = 2\<rparr>,
         \<lparr>item_memory_key = ''lunch'', item_content = ''curry'',
          item_tag = None, item_created_at = 1, item_updated_at = 1\<rparr>])"
proof -
  have c: "fst (call_tool memories ''list_memories'' (Some curry_rice) three_writes)
       = Inr \<lparr>payload = List_payload 2
                 [\<lparr>item_memory_key = ''favorite_food'', item_content = ''ramen'',
                   item_tag = None, item_created_at = 0, item_updated_at = 2\<rparr>,
                  \<lparr>item_memory_key = ''lunch'', item_content = ''curry'',
                   item_tag = None, item_created_at = 1, item_updated_at = 1\<rparr>],
              isError = False\<rparr>"
    by (simp add: call_list three_writes_eq pg_select_list_def tag_argument_def
        or_argument_def curry_rice_def sample_args_def truthy_def listing_def project_def
        eq_filter_def template_def tag_filter_def)
  have u: "arg_user_id curry_rice = Some ''u1''"
    by (simp add: curry_rice_def sample_args_def)
  from list_memories_order [of curry_rice "''u1''" three_writes 2
      "[\<lparr>item_memory_key = ''favorite_food'', item_content = ''ramen'',
          item_tag = None, item_created_at = 0, item_updated_at = 2\<rparr>,
         \<lparr>item_memory_key = ''lunch'', item_content = ''curry'',
          item_tag = None, item_created_at = 1, item_updated_at = 1\<rparr>]"] c u
  show ?thesis by simp
qed

text \<open>
  Claim C10. A falsy tag (absent or the empty string) is sent to the store as null, and so is
  absent metadata; on the table the record written then has a null tag. An empty-string tag
  adds no tag filter to \<^verbatim>\<open>list_memories\<close> and an empty-string search adds no
  \<^verbatim>\<open>or\<close> filter, and the call is the same as with the argument left out, for every
  store.
\<close>

theorem falsy_optionals:
  "(\<not> truthy (arg_tag a) \<longrightarrow> new_tag (create_memory_row a) = None)
   \<and> (arg_metadata a = None \<longrightarrow> new_metadata (create_memory_row a) = None)
   \<and> new_tag (create_memory_row (a\<lparr>arg_tag := Some []\<rparr>)) = None
   \<and> tag_argument (a\<lparr>arg_tag := Some []\<rparr>) = None
   \<and> or_argument (a\<lparr>arg_search := Some []\<rparr>) = None
   \<and> call_tool st ''list_memories'' (Some (a\<lparr>arg_tag := Some []\<rparr>)) s
       = call_tool st ''list_memories'' (Some (a\<lparr>arg_tag := None\<rparr>)) s
   \<and> call_tool st ''list_memories'' (Some (a\<lparr>arg_search := Some []\<rparr>)) s
       = call_tool st ''list_memories'' (Some (a\<lparr>arg_search := None\<rparr>)) s
   \<and> (unique_keys d \<and> arg_user_id b = Some u \<and> arg_key b = Some k
        \<and> arg_content b = Some c \<and> \<not> truthy (arg_tag b) \<longrightarrow>
        map tag (records_of u k (after ''create_memory'' b d)) = [None])"
proof -
  have "map tag (records_of u k (after ''create_memory'' b d)) = [None]"
    if h: "unique_keys d" "arg_user_id b = Some u" "arg_key b = Some k"
      "arg_content b = Some c" "\<not> truthy (arg_tag b)"
  proof -
    let ?p = "create_memory_row b"
    have p: "new_user_id ?p = Some u" "new_memory_key ?p = Some k" "new_content ?p = Some c"
      using h by (simp_all add: create_memory_row_def)
    from pg_upsert_records [OF h(1) p] h(5) show ?thesis
      by (auto simp: after_create create_memory_row_def or_null_def)
  qed
  then show ?thesis
    by (simp add: create_memory_row_def or_null_def truthy_def tag_argument_def
        or_argument_def call_tool_def switch_list list_memories_def)
qed

theorem falsy_optionals_witness:
  "\<not> truthy (arg_tag ramen) \<and> arg_metadata ramen = None
   \<and> new_tag (create_memory_row ramen) = None \<and> new_metadata (create_memory_row ramen) = None
   \<and> call_tool memories ''list_memories'' (Some (ramen\<lparr>arg_search := Some []\<rparr>)) three_writes
       = call_tool memories ''list_memories'' (Some (ramen\<lparr>arg_search := None\<rparr>)) three_writes
   \<and> unique_keys empty_db
   \<and> map tag (records_of ''u1'' ''favorite_food'' (after ''create_memory'' ramen empty_db))
       = [None]"
  using falsy_optionals [of ramen memories three_writes empty_db ramen "''u1''"
      "''favorite_food''" "''ramen''"]
  by (simp add: ramen_def sample_args_def truthy_def empty_db_def unique_keys_def)

subsection \<open>Counting tags\<close>

lemma call_tags:
  "arg_user_id a = Some u \<Longrightarrow>
   call_tool memories ''list_tags'' (Some a) d
     = (Inr \<lparr>payload = Tags_payload (entries (tagCounts (user_tags u d))), isError = False\<rparr>, d)"
  by (simp add: call_tool_def switch_tags list_tags_def pg_select_tags_def user_tags_def
      eq_filter_def template_def)

lemma first_occurrences_snoc:
  "first_occurrences (xs @ [t])
     = (if t \<in> set xs then first_occurrences xs else first_occurrences xs @ [t])"
  by (induction xs) auto

lemma set_first_occurrences [simp]: "set (first_occurrences xs) = set xs"
  by (induction xs) auto

lemma distinct_first_occurrences [simp]: "distinct (first_occurrences xs)"
  by (induction xs) auto

lemma keys_spec: "fst ` set (spec_tag_counts ts) = set ts"
  by (simp add: spec_tag_counts_def image_image)

lemma map_of_counts:
  "map_of (map (\<lambda>x. (x, f x)) xs) t = (if t \<in> set xs then Some (f t) else None)"
  by (induction xs) auto

lemma assign_fresh:
  "t \<notin> fst ` set ps \<Longrightarrow> assign ps t v = ps @ [(t, v)]"
  by (induction ps) auto

lemma assign_present:
  "distinct xs \<Longrightarrow> t \<in> set xs \<Longrightarrow>
     assign (map (\<lambda>x. (x, f x)) xs) t v = map (\<lambda>x. (x, if x = t then v else f x)) xs"
proof (induction xs)
  case Nil
  then show ?case by simp
next
  case (Cons x xs)
  show ?case
  proof (cases "x = t")
    case True
    with Cons.prems have "t \<notin> set xs" by simp
    then have "map (\<lambda>x. (x, f x)) xs = map (\<lambda>x. (x, if x = t then v else f x)) xs"
      by (intro map_cong) auto
    with True show ?thesis by simp
  next
    case False
    with Cons show ?thesis by simp
  qed
qed

lemma bump_spec:
  assumes "t \<notin> set object_prototype_names"
  shows "bump (spec_tag_counts ts) t = spec_tag_counts (ts @ [t])"
proof (cases "t \<in> set ts")
  case True
  have "bump (spec_tag_counts ts) t
      = assign (spec_tag_counts ts) t (Num (count_list ts t + 1))"
    using True by (simp add: bump_def spec_tag_counts_def map_of_counts)
  also have "\<dots> = map (\<lambda>x. (x, if x = t then Num (count_list ts t + 1)
                                  else Num (count_list ts x))) (first_occurrences ts)"
    using True by (simp add: spec_tag_counts_def assign_present)
  also have "\<dots> = spec_tag_counts (ts @ [t])"
    using True by (simp add: spec_tag_counts_def first_occurrences_snoc)
  finally show ?thesis .
next
  case False
  have proto: "t \<noteq> ''__proto__''"
    using assms by (auto simp: object_prototype_names_def)
  have "bump (spec_tag_counts ts) t = assign (spec_tag_counts ts) t (Num 1)"
    using False assms proto by (simp add: bump_def spec_tag_counts_def map_of_counts)
  also have "\<dots> = spec_tag_counts ts @ [(t, Num 1)]"
  proof (rule assign_fresh)
    show "t \<notin> fst ` set (spec_tag_counts ts)"
      using False by (simp add: keys_spec)
  qed
  also have "\<dots> = spec_tag_counts (ts @ [t])"
    using False by (auto simp: spec_tag_counts_def first_occurrences_snoc)
  finally show ?thesis .
qed

lemma tagCounts_spec:
  "\<forall>t \<in> set ts. t \<notin> set object_prototype_names \<Longrightarrow> tagCounts ts = spec_tag_counts ts"
proof (induction ts rule: rev_induct)
  case Nil
  then show ?case by (simp add: tagCounts_def spec_tag_counts_def)
next
  case (snoc t ts)
  then have "tagCounts ts = spec_tag_counts ts" by simp
  moreover have "tagCounts (ts @ [t]) = bump (tagCounts ts) t"
    by (simp add: tagCounts_def)
  ultimately show ?case
    using snoc.prems by (simp add: bump_spec)
qed

lemma set_entries [simp]: "set (entries obj) = set obj"
  by (auto simp: entries_def)

lemma distinct_entries: "distinct (map fst obj) \<Longrightarrow> distinct (map fst (entries obj))"
proof -
  assume d: "distinct (map fst obj)"
  then have 1: "distinct obj" and 2: "inj_on fst (set obj)"
    by (simp_all add: distinct_map)
  from 1 have "distinct (entries obj)"
    by (auto simp: entries_def)
  with 2 show ?thesis by (simp add: distinct_map)
qed

lemma entries_no_index:
  "\<forall>p \<in> set obj. \<not> is_array_index (fst p) \<Longrightarrow> entries obj = obj"
  by (simp add: entries_def filter_empty_conv)

lemma spec_tag_counts_keys [simp]: "map fst (spec_tag_counts ts) = first_occurrences ts"
  by (simp add: spec_tag_counts_def comp_def)

text \<open>The decimal value tells array indices apart, so their numeric order is strict.\<close>

lemma decimal_value_snoc:
  "decimal_value (s @ [c]) = 10 * decimal_value s + digit_value c"
  by (simp add: decimal_value_def)

lemma digit_value_less: "is_digit c \<Longrightarrow> digit_value c < 10"
  by (auto simp: is_digit_def digit_value_def)

lemma digit_value_inj:
  assumes "is_digit c" "is_digit d" "digit_value c = digit_value d"
  shows "c = d"
proof -
  from assms have "(of_char c :: nat) - 48 = of_char d - 48"
    "48 \<le> (of_char c :: nat)" "48 \<le> (of_char d :: nat)"
    by (simp_all add: is_digit_def digit_value_def)
  then have "(of_char c :: nat) = of_char d" by linarith
  then show ?thesis by simp
qed

lemma digit_value_zero: "is_digit c \<Longrightarrow> digit_value c = 0 \<Longrightarrow> c = CHR ''0''"
  using digit_value_inj [of c "CHR ''0''"] by (simp add: is_digit_def digit_value_def)

lemma foldl_decimal_ge: "n \<le> foldl (\<lambda>n c. 10 * n + digit_value c) n s"
proof (induction s arbitrary: n)
  case Nil
  show ?case by simp
next
  case (Cons c s)
  have "n \<le> 10 * n + digit_value c" by simp
  also have "\<dots> \<le> foldl (\<lambda>n c. 10 * n + digit_value c) (10 * n + digit_value c) s"
    by (rule Cons.IH)
  finally show ?case by simp
qed

lemma decimal_value_pos:
  assumes "s \<noteq> []" "list_all is_digit s" "hd s \<noteq> CHR ''0''"
  shows "0 < decimal_value s"
proof -
  from assms(1) obtain c cs where s: "s = c # cs" by (cases s) auto
  with assms have "digit_value c \<noteq> 0"
    using digit_value_zero [of c] by auto
  moreover have "digit_value c \<le> decimal_value s"
    using foldl_decimal_ge [of "digit_value c" cs] by (simp add: s decimal_value_def)
  ultimately show ?thesis by simp
qed

lemma decimal_value_inj_nlz:
  "list_all is_digit s \<Longrightarrow> list_all is_digit t \<Longrightarrow> s = [] \<or> hd s \<noteq> CHR ''0'' \<Longrightarrow>
   t = [] \<or> hd t \<noteq> CHR ''0'' \<Longrightarrow> decimal_value s = decimal_value t \<Longrightarrow> s = t"
proof (induction s arbitrary: t rule: rev_induct)
  case Nil
  show ?case
  proof (cases "t = []")
    case False
    with Nil have "0 < decimal_value t" by (intro decimal_value_pos) auto
    with Nil show ?thesis by (simp add: decimal_value_def)
  qed simp
next
  case (snoc c xs)
  have pos: "0 < decimal_value (xs @ [c])"
    using snoc.prems by (intro decimal_value_pos) auto
  show ?case
  proof (cases t rule: rev_cases)
    case Nil
    with snoc.prems pos show ?thesis by (simp add: decimal_value_def)
  next
    case (snoc ys d)
    from snoc.prems(1,2) snoc have dg: "is_digit c" "is_digit d"
      "list_all is_digit xs" "list_all is_digit ys"
      by simp_all
    from snoc.prems(5) snoc
    have eq: "10 * decimal_value xs + digit_value c = 10 * decimal_value ys + digit_value d"
      by (simp add: decimal_value_snoc)
    from digit_value_less [OF dg(1)] digit_value_less [OF dg(2)] eq
    have v: "decimal_value xs = decimal_value ys"
      by linarith
    with eq have "digit_value c = digit_value d" by simp
    then have cd: "c = d" using digit_value_inj dg by blast
    have nx: "xs = [] \<or> hd xs \<noteq> CHR ''0''"
      using snoc.prems(3) by (cases xs) auto
    have ny: "ys = [] \<or> hd ys \<noteq> CHR ''0''"
      using snoc.prems(4) snoc by (cases ys) auto
    from snoc.IH [OF dg(3,4) nx ny v] cd snoc show ?thesis by simp
  qed
qed

lemma array_indexD:
  assumes "is_array_index s"
  shows "s \<noteq> []" "list_all is_digit s" "hd s = CHR ''0'' \<Longrightarrow> s = ''0''"
proof -
  from assms show "s \<noteq> []" "list_all is_digit s"
    by (simp_all add: is_array_index_def)
  assume "hd s = CHR ''0''"
  with assms have "length s = 1" "s \<noteq> []" by (simp_all add: is_array_index_def)
  with \<open>hd s = CHR ''0''\<close> show "s = ''0''" by (cases s) simp_all
qed

lemma decimal_value_zero: "decimal_value ''0'' = 0"
  by (simp add: decimal_value_def digit_value_def)

lemma array_index_zero:
  assumes "is_array_index x" "decimal_value x = 0"
  shows "x = ''0''"
proof (rule ccontr)
  assume "x \<noteq> ''0''"
  with array_indexD(3) [OF assms(1)] have "hd x \<noteq> CHR ''0''" by blast
  with array_indexD(1,2) [OF assms(1)] have "0 < decimal_value x"
    by (intro decimal_value_pos)
  with assms(2) show False by simp
qed

lemma decimal_value_inj:
  assumes "is_array_index s" "is_array_index t" "decimal_value s = decimal_value t"
  shows "s = t"
proof (cases "hd s = CHR ''0'' \<or> hd t = CHR ''0''")
  case True
  then show ?thesis
  proof
    assume "hd s = CHR ''0''"
    with array_indexD(3) [OF assms(1)] have s: "s = ''0''" by blast
    with assms(3) have "decimal_value t = 0" by (simp only: decimal_value_zero)
    with array_index_zero [OF assms(2)] s show ?thesis by simp
  next
    assume "hd t = CHR ''0''"
    with array_indexD(3) [OF assms(2)] have t: "t = ''0''" by blast
    with assms(3) have "decimal_value s = 0" by (simp only: decimal_value_zero)
    with array_index_zero [OF assms(1)] t show ?thesis by simp
  qed
next
  case False
  show ?thesis
  proof (rule decimal_value_inj_nlz)
    show "list_all is_digit s" "list_all is_digit t"
      by (rule array_indexD(2) [OF assms(1)], rule array_indexD(2) [OF assms(2)])
    show "s = [] \<or> hd s \<noteq> CHR ''0''" "t = [] \<or> hd t \<noteq> CHR ''0''"
      using False by simp_all
    show "decimal_value s = decimal_value t" by (rule assms(3))
  qed
qed

lemma insort_key_map:
  "insort_key f (g x) (map g ys) = map g (insort_key (\<lambda>y. f (g y)) x ys)"
  by (induction ys) simp_all

lemma sort_key_map_pairs:
  "sort_key f (map g xs) = map g (sort_key (\<lambda>y. f (g y)) xs)"
  by (induction xs) (simp_all add: insort_key_map)

lemma entries_map:
  "entries (map (\<lambda>t. (t, f t)) ts)
     = map (\<lambda>t. (t, f t))
         (sort_key decimal_value (filter is_array_index ts) @ filter (\<lambda>t. \<not> is_array_index t) ts)"
  by (simp add: entries_def filter_map comp_def sort_key_map_pairs)

lemma index_block_ascending:
  assumes "distinct ts"
  shows "sorted_wrt (\<lambda>x y. decimal_value x < decimal_value y)
           (sort_key decimal_value (filter is_array_index ts))"
proof -
  let ?idx = "sort_key decimal_value (filter is_array_index ts)"
  have s: "sorted (map decimal_value ?idx)" by (rule sorted_sort_key)
  have "inj_on decimal_value (set ?idx)"
    by (auto intro!: inj_onI decimal_value_inj)
  moreover have "distinct ?idx" using assms by simp
  ultimately have "distinct (map decimal_value ?idx)"
    by (simp add: distinct_map)
  with s have "sorted_wrt (<) (map decimal_value ?idx)"
    by (simp add: strict_sorted_iff)
  then show ?thesis by (simp add: sorted_wrt_map)
qed

lemma first_occurrences_split:
  "set (sort_key decimal_value (filter is_array_index (first_occurrences ts))
        @ filter (\<lambda>t. \<not> is_array_index t) (first_occurrences ts)) = set ts"
  "distinct (sort_key decimal_value (filter is_array_index (first_occurrences ts))
        @ filter (\<lambda>t. \<not> is_array_index t) (first_occurrences ts))"
  by auto

lemma strict_key_distinct: "sorted_wrt (\<lambda>x y. f x < (f y :: nat)) xs \<Longrightarrow> distinct xs"
  by (induction xs) auto

lemma two_ascending:
  assumes "set xs = {a, b}" "sorted_wrt (\<lambda>x y. f x < (f y :: nat)) xs" "f a < f b"
  shows "xs = [a, b]"
proof -
  from assms(3) have ab: "a \<noteq> b" by auto
  have d: "distinct xs" using assms(2) by (rule strict_key_distinct)
  then have "length xs = card (set xs)" by (simp add: distinct_card)
  with assms(1) ab have "length xs = 2" by simp
  then obtain x y where xs: "xs = [x, y]"
    by (cases xs; cases "tl xs") auto
  with assms(1) have "{x, y} = {a, b}" by simp
  moreover from assms(2) xs have "f x < f y" by simp
  ultimately have "x = a \<and> y = b"
    using assms(3) by (auto simp: doubleton_eq_iff)
  with xs show ?thesis by simp
qed

lemma tagged_years_eq:
  "tagged_years =
     \<lparr>table_rows =
        [\<lparr>user_id = ''u1'', memory_key = ''k1'', content = ''a'', tag = Some ''work'',
          metadata = None, created_at = 0, updated_at = 0\<rparr>,
         \<lparr>user_id = ''u1'', memory_key = ''k2'', content = ''b'', tag = Some ''2024'',
          metadata = None, created_at = 1, updated_at = 1\<rparr>,
         \<lparr>user_id = ''u1'', memory_key = ''k3'', content = ''c'', tag = Some ''7'',
          metadata = None, created_at = 2, updated_at = 2\<rparr>,
         \<lparr>user_id = ''u1'', memory_key = ''k4'', content = ''d'', tag = Some ''work'',
          metadata = None, created_at = 3, updated_at = 3\<rparr>],
      clock = 4\<rparr>"
  by (simp add: tagged_years_def after_create create_memory_row_def pg_upsert_def
      sample_args_def empty_db_def or_null_def truthy_def Let_def)

lemma tagged_years_tags: "user_tags ''u1'' tagged_years = [''work'', ''2024'', ''7'', ''work'']"
  by (simp add: tagged_years_eq user_tags_def List.map_filter_def)

lemma index_years:
  "is_array_index ''2024''" "is_array_index ''7''" "\<not> is_array_index ''work''"
  "decimal_value ''7'' = 7" "decimal_value ''2024'' = 2024"
  by (simp_all add: is_array_index_def is_digit_def decimal_value_def digit_value_def)

lemma two_descending:
  assumes "set xs = {a, b}" "sorted_wrt (\<lambda>x y. f x < (f y :: nat)) xs" "f b < f a"
  shows "xs = [b, a]"
proof -
  have "{a, b} = {b, a}" by (rule insert_commute)
  with assms(1) have "set xs = {b, a}" by simp
  from two_ascending [OF this assms(2,3)] show ?thesis .
qed

lemma tagged_eq:
  "tagged =
     \<lparr>table_rows =
        [\<lparr>user_id = ''u1'', memory_key = ''k1'', content = ''a'', tag = Some ''work'',
          metadata = None, created_at = 0, updated_at = 0\<rparr>,
         \<lparr>user_id = ''u1'', memory_key = ''k2'', content = ''b'', tag = Some ''2024'',
          metadata = None, created_at = 1, updated_at = 1\<rparr>,
         \<lparr>user_id = ''u1'', memory_key = ''k3'', content = ''c'', tag = Some ''work'',
          metadata = None, created_at = 2, updated_at = 2\<rparr>],
      clock = 3\<rparr>"
  by (simp add: tagged_def after_create create_memory_row_def pg_upsert_def
      sample_args_def empty_db_def or_null_def truthy_def Let_def)

lemma tagged_tags: "user_tags ''u1'' tagged = [''work'', ''2024'', ''work'']"
  by (simp add: tagged_eq user_tags_def List.map_filter_def)

lemma index_2024: "is_array_index ''2024''" "\<not> is_array_index ''work''"
  by (simp_all add: is_array_index_def is_digit_def decimal_value_def digit_value_def)

lemma tagged_spec:
  "spec_tag_counts [''work'', ''2024'', ''work''] = [(''work'', Num 2), (''2024'', Num (Suc 0))]"
  by (simp add: spec_tag_counts_def)

lemma tagged_entries:
  "entries [(''work'', Num 2), (''2024'', Num (Suc 0))]
     = [(''2024'', Num (Suc 0)), (''work'', Num 2)]"
  by (simp add: entries_def index_2024)

text \<open>
  Claim C8, amended. When no tag of the user is the name of a property of
  \<^verbatim>\<open>Object.prototype\<close>, \<^verbatim>\<open>list_tags\<close> returns exactly one entry per distinct non-null
  tag of the user's records, with \<open>count\<close> the number of the user's records bearing the
  tag. The entries are in the order of \<^verbatim>\<open>Object.entries\<close>: first the tags that are array
  indices, in strictly ascending numeric order, then the other tags in the order of their
  first occurrence among the returned rows; when no tag is an array index this is the order
  of first occurrence. The list \<open>idx\<close> of the statement is the block of array indices.
\<close>

theorem list_tags_counts:
  assumes "arg_user_id a = Some u"
    and "\<forall>t \<in> set (user_tags u d). t \<notin> set object_prototype_names"
  shows "\<exists>idx.
     call_tool memories ''list_tags'' (Some a) d
       = (Inr \<lparr>payload = Tags_payload
                  (map (\<lambda>t. (t, Num (count_list (user_tags u d) t)))
                     (idx @ filter (\<lambda>t. \<not> is_array_index t)
                             (first_occurrences (user_tags u d)))),
                isError = False\<rparr>, d)
     \<and> set idx = {t \<in> set (user_tags u d). is_array_index t}
     \<and> sorted_wrt (\<lambda>x y. decimal_value x < decimal_value y) idx
     \<and> distinct (idx @ filter (\<lambda>t. \<not> is_array_index t) (first_occurrences (user_tags u d)))
     \<and> set (idx @ filter (\<lambda>t. \<not> is_array_index t) (first_occurrences (user_tags u d)))
         = set (user_tags u d)
     \<and> ((\<forall>t \<in> set (user_tags u d). \<not> is_array_index t) \<longrightarrow>
          idx @ filter (\<lambda>t. \<not> is_array_index t) (first_occurrences (user_tags u d))
            = first_occurrences (user_tags u d))"
proof -
  let ?T = "user_tags u d"
  let ?idx = "sort_key decimal_value (filter is_array_index (first_occurrences ?T))"
  have 1: "call_tool memories ''list_tags'' (Some a) d
       = (Inr \<lparr>payload = Tags_payload
                  (map (\<lambda>t. (t, Num (count_list ?T t)))
                     (?idx @ filter (\<lambda>t. \<not> is_array_index t) (first_occurrences ?T))),
                isError = False\<rparr>, d)"
    using assms by (simp add: call_tags tagCounts_spec spec_tag_counts_def entries_map)
  have 2: "set ?idx = {t \<in> set ?T. is_array_index t}" by auto
  have 3: "sorted_wrt (\<lambda>x y. decimal_value x < decimal_value y) ?idx"
    by (rule index_block_ascending) simp
  have 6: "?idx @ filter (\<lambda>t. \<not> is_array_index t) (first_occurrences ?T)
            = first_occurrences ?T" if "\<forall>t \<in> set ?T. \<not> is_array_index t"
  proof -
    from that have "filter is_array_index (first_occurrences ?T) = []"
      by (simp add: filter_empty_conv)
    moreover from that have "filter (\<lambda>t. \<not> is_array_index t) (first_occurrences ?T)
        = first_occurrences ?T"
      by (simp add: filter_id_conv)
    ultimately show ?thesis by simp
  qed
  show ?thesis
    by (intro exI [of _ ?idx] conjI impI)
      (rule 1 2 3 first_occurrences_split 6 | assumption)+
qed

theorem list_tags_counts_witness:
  "arg_user_id sushi = Some ''u1''
   \<and> user_tags ''u1'' tagged_years = [''work'', ''2024'', ''7'', ''work'']
   \<and> ''work'' \<notin> set object_prototype_names \<and> ''2024'' \<notin> set object_prototype_names
   \<and> ''7'' \<notin> set object_prototype_names
   \<and> call_tool memories ''list_tags'' (Some sushi) tagged_years
       = (Inr \<lparr>payload = Tags_payload [(''7'', Num 1), (''2024'', Num 1), (''work'', Num 2)],
                isError = False\<rparr>, tagged_years)"
proof -
  have p: "''work'' \<notin> set object_prototype_names" "''2024'' \<notin> set object_prototype_names"
    "''7'' \<notin> set object_prototype_names"
    by (simp_all add: object_prototype_names_def)
  have h: "arg_user_id sushi = Some ''u1''"
    "\<forall>t \<in> set (user_tags ''u1'' tagged_years). t \<notin> set object_prototype_names"
    using p by (simp_all add: sushi_def sample_args_def tagged_years_tags)
  from list_tags_counts [OF h] obtain idx where
    c: "call_tool memories ''list_tags'' (Some sushi) tagged_years
       = (Inr \<lparr>payload = Tags_payload
                  (map (\<lambda>t. (t, Num (count_list (user_tags ''u1'' tagged_years) t)))
                     (idx @ filter (\<lambda>t. \<not> is_array_index t)
                             (first_occurrences (user_tags ''u1'' tagged_years)))),
                isError = False\<rparr>, tagged_years)"
    and s: "set idx = {t \<in> set (user_tags ''u1'' tagged_years). is_array_index t}"
    and o: "sorted_wrt (\<lambda>x y. decimal_value x < decimal_value y) idx"
    by blast
  have "{t \<in> set (user_tags ''u1'' tagged_years). is_array_index t}
      = set (filter is_array_index (user_tags ''u1'' tagged_years))"
    by simp
  also have "\<dots> = {''2024'', ''7''}"
    by (simp add: tagged_years_tags index_years)
  finally have "set idx = {''2024'', ''7''}" using s by simp
  from two_descending [OF this o] have idx: "idx = [''7'', ''2024'']"
    by (simp add: index_years)
  from c show ?thesis
    by (simp add: idx tagged_years_tags index_years h(1) p)
qed

text \<open>
  Claim C8 as stated fails on the order: with the tags \<^verbatim>\<open>work\<close>, \<^verbatim>\<open>2024\<close>,
  \<^verbatim>\<open>work\<close> the entry of \<^verbatim>\<open>2024\<close> comes first, although \<^verbatim>\<open>work\<close> occurs first
  among the rows.
\<close>

theorem list_tags_order_counterexample:
  "fst (call_tool memories ''list_tags'' (Some sushi) tagged)
     \<noteq> Inr \<lparr>payload = Tags_payload (spec_tag_counts (user_tags ''u1'' tagged)),
            isError = False\<rparr>"
proof -
  have "tagCounts [''work'', ''2024'', ''work''] = [(''work'', Num 2), (''2024'', Num (Suc 0))]"
    by (simp add: tagCounts_def bump_def object_prototype_names_def)
  moreover have "arg_user_id sushi = Some ''u1''"
    by (simp add: sushi_def sample_args_def)
  ultimately show ?thesis
    by (simp add: call_tags tagged_tags tagged_spec tagged_entries)
qed

text \<open>
  Tags that name a property of \<^verbatim>\<open>Object.prototype\<close> are not counted: \<^verbatim>\<open>__proto__\<close>
  gets no entry, and the \<open>count\<close> of \<^verbatim>\<open>constructor\<close> is a string.
\<close>

lemma inherited_names_not_counted:
  "entries (tagCounts [''__proto__'', ''constructor'', ''constructor''])
     = [(''constructor'', Inherited_text 2)]"
  by (simp add: tagCounts_def bump_def object_prototype_names_def entries_def is_array_index_def
      is_digit_def)

subsection \<open>Searching\<close>

lemma ilike_percent:
  "ilike (CHR ''%'' # ps) t
     = (ilike ps t \<or> (case t of [] \<Rightarrow> False | c # cs \<Rightarrow> ilike (CHR ''%'' # ps) cs))"
  by simp

lemma ilike_plain:
  "\<not> special p \<Longrightarrow>
     ilike (p # ps) t = (case t of [] \<Rightarrow> False | c # cs \<Rightarrow> lower c = lower p \<and> ilike ps cs)"
  by (simp add: special_def)

lemma ilike_percent_any: "ilike ''%'' t"
  by (induction t) simp_all

lemma has_prefix_ci_Nil: "has_prefix_ci p [] = (p = [])"
  by (cases p) simp_all

lemma ilike_plain_prefix:
  "\<forall>c \<in> set p. \<not> special c \<Longrightarrow> ilike (p @ ''%'') t = has_prefix_ci p t"
proof (induction p arbitrary: t)
  case Nil
  then show ?case by (simp add: ilike_percent_any del: ilike.simps)
next
  case (Cons c p)
  then have c: "\<not> special c" and IH: "\<And>t. ilike (p @ ''%'') t = has_prefix_ci p t"
    by simp_all
  show ?case
  proof (cases t)
    case Nil
    with c show ?thesis by (simp add: ilike_plain del: ilike.simps)
  next
    case (Cons x xs)
    with c IH show ?thesis by (auto simp: ilike_plain simp del: ilike.simps)
  qed
qed

lemma ilike_contains:
  assumes "\<forall>c \<in> set p. \<not> special c"
  shows "ilike (CHR ''%'' # p @ ''%'') t = contains_ci p t"
proof (induction t)
  case Nil
  show ?case
    using ilike_plain_prefix [OF assms, of "[]"]
    by (subst ilike_percent) (simp add: has_prefix_ci_Nil del: ilike.simps)
next
  case (Cons x xs)
  show ?case
    using ilike_plain_prefix [OF assms, of "x # xs"] Cons
    by (subst ilike_percent) (simp del: ilike.simps)
qed

lemma split_commas_nonempty: "split_commas s \<noteq> []"
  by (induction s) (simp_all add: Let_def)

lemma split_commas_none: "CHR '','' \<notin> set s \<Longrightarrow> split_commas s = [s]"
  by (induction s) (auto simp: Let_def)

lemma split_commas_at:
  "CHR '','' \<notin> set xs \<Longrightarrow> split_commas (xs @ CHR '','' # ys) = xs # split_commas ys"
  by (induction xs) (auto simp: Let_def)

lemma not_ends_in_escape: "backslash \<notin> set p \<Longrightarrow> \<not> ends_in_escape p"
  by (induction p rule: ends_in_escape.induct) simp_all

lemma parse_ilike_memory_key:
  "CHR '')'' \<notin> set v \<Longrightarrow>
     parse_condition (''memory_key.ilike.%'' @ v) = Some (''memory_key'', CHR ''%'' # map star v)"
  by (simp add: parse_condition_def text_columns_def star_def)

lemma parse_ilike_content:
  "CHR '')'' \<notin> set v \<Longrightarrow>
     parse_condition (''content.ilike.%'' @ v) = Some (''content'', CHR ''%'' # map star v)"
  by (simp add: parse_condition_def text_columns_def star_def)

lemma split_search_filter:
  assumes "CHR '','' \<notin> set s"
  shows "split_commas (search_filter s)
     = [''memory_key.ilike.%'' @ s @ ''%'', ''content.ilike.%'' @ s @ ''%'']"
proof -
  define X where "X = ''memory_key.ilike.%'' @ s @ ''%''"
  define Y where "Y = ''content.ilike.%'' @ s @ ''%''"
  have f: "search_filter s = X @ CHR '','' # Y"
    by (simp add: search_filter_def X_def Y_def)
  have nc: "CHR '','' \<notin> set X" "CHR '','' \<notin> set Y"
    using assms by (simp_all add: X_def Y_def)
  have "split_commas (X @ CHR '','' # Y) = [X, Y]"
    by (simp only: split_commas_at [OF nc(1)] split_commas_none [OF nc(2)])
  with f show ?thesis by (simp only: X_def Y_def)
qed

lemma plain_filter:
  assumes "\<forall>c \<in> set s. \<not> special c"
  shows "parse_or (search_filter s)
     = Some [(''memory_key'', CHR ''%'' # s @ ''%''), (''content'', CHR ''%'' # s @ ''%'')]"
proof -
  from assms have s: "CHR '','' \<notin> set s" "CHR '')'' \<notin> set (s @ ''%'')"
    "\<forall>c \<in> set (s @ ''%''). star c = c"
    by (auto simp: special_def star_def)
  have m: "map star (s @ ''%'') = s @ ''%''"
    using s(3) by (intro map_idI) auto
  show ?thesis
    by (simp only: parse_or_def split_search_filter [OF s(1)] list.map
        parse_ilike_memory_key [OF s(2)] parse_ilike_content [OF s(2)] m those.simps
        option.case option.map)
qed


lemma any_condition_two:
  "any_condition [(''memory_key'', p), (''content'', q)] r
     = (ilike p (memory_key r) \<or> ilike q (content r))"
  by (simp add: any_condition_def column_text_def)

lemma plain_or_filter:
  assumes "\<forall>c \<in> set s. \<not> special c"
  shows "pg_select_list v t (Some (search_filter s)) d
     = (Inr (listing (\<lambda>r. eq_filter v (user_id r) \<and> tag_filter t r
              \<and> (contains_ci s (memory_key r) \<or> contains_ci s (content r))) d), d)"
proof -
  from assms have "backslash \<notin> set (CHR ''%'' # s @ ''%'')"
    by (auto simp: special_def backslash_def)
  then have e: "\<not> ends_in_escape (CHR ''%'' # s @ ''%'')"
    by (rule not_ends_in_escape)
  show ?thesis
    using e
    by (simp add: pg_select_list_def plain_filter [OF assms] any_condition_two
        ilike_contains [OF assms] del: ilike.simps ends_in_escape.simps)
qed

text \<open>
  For a search term without special characters, and for no search term, \<^verbatim>\<open>list_memories\<close>
  returns exactly the records the specification selects, latest first.
\<close>

lemma plain_search:
  assumes "arg_user_id a = Some u"
    and "case arg_search a of None \<Rightarrow> True | Some s \<Rightarrow> \<forall>c \<in> set s. \<not> special c"
  shows "call_tool memories ''list_memories'' (Some a) d
     = (Inr \<lparr>payload = List_payload (length (listing (spec_selected a) d))
                         (listing (spec_selected a) d),
              isError = False\<rparr>, d)"
proof (cases "truthy (arg_search a)")
  case True
  then obtain s where s: "arg_search a = Some s" "\<forall>c \<in> set s. \<not> special c"
    using assms(2) by (auto simp: truthy_def split: option.splits)
  have "(\<lambda>r. eq_filter (arg_user_id a) (user_id r) \<and> tag_filter (tag_argument a) r
              \<and> (contains_ci s (memory_key r) \<or> contains_ci s (content r)))
        = spec_selected a"
    using assms(1) True s(1)
    by (auto simp: spec_selected_def eq_filter_def template_def tag_filter_def
        tag_argument_def truthy_def fun_eq_iff split: option.splits)
  with True s show ?thesis
    by (simp add: call_list or_argument_def template_def plain_or_filter)
next
  case False
  have "(\<lambda>r. eq_filter (arg_user_id a) (user_id r) \<and> tag_filter (tag_argument a) r)
        = spec_selected a"
    using assms(1) False
    by (auto simp: spec_selected_def eq_filter_def template_def tag_filter_def
        tag_argument_def truthy_def fun_eq_iff split: option.splits)
  with False show ?thesis
    by (simp add: call_list or_argument_def pg_select_list_def)
qed

lemma address_book_eq:
  "address_book =
     \<lparr>table_rows =
        [\<lparr>user_id = ''u1'', memory_key = ''home-address'', content = ''12 Elm Street'',
          tag = None, metadata = None, created_at = 0, updated_at = 0\<rparr>],
      clock = 1\<rparr>"
  by (simp add: address_book_def after_create create_memory_row_def pg_upsert_def
      sample_args_def empty_db_def or_null_def truthy_def Let_def)

lemma address_filter:
  "parse_or (search_filter ''home_address'')
     = Some [(''memory_key'', ''%home_address%''), (''content'', ''%home_address%'')]"
  by (simp add: parse_or_def search_filter_def parse_condition_def text_columns_def star_def)

lemma address_match: "ilike ''%home_address%'' ''home-address''"
  by (simp add: backslash_def lower_def)

lemma address_no_match: "\<not> ilike ''%home_address%'' ''12 Elm Street''"
  by (simp add: backslash_def lower_def)

lemma address_spec:
  "\<not> contains_ci ''home_address'' ''home-address''"
  "\<not> contains_ci ''home_address'' ''12 Elm Street''"
  by (simp_all add: lower_def)

text \<open>
  Claim C6. The search term is put into the pattern as it is, so \<^verbatim>\<open>_\<close> in it stands for
  any character: the search for \<^verbatim>\<open>home_address\<close> returns the record with the key
  \<^verbatim>\<open>home-address\<close>, although neither its key nor its content contains the term, and
  the specification selects no record.
\<close>

theorem search_wildcard:
  "fst (call_tool memories ''list_memories'' (Some address_search) address_book)
     = Inr \<lparr>payload = List_payload 1
               [\<lparr>item_memory_key = ''home-address'', item_content = ''12 Elm Street'',
                 item_tag = None, item_created_at = 0, item_updated_at = 0\<rparr>],
            isError = False\<rparr>
   \<and> filter (spec_selected address_search) (table_rows address_book) = []"
proof -
  have "fst (call_tool memories ''list_memories'' (Some address_search) address_book)
     = Inr \<lparr>payload = List_payload 1
               [\<lparr>item_memory_key = ''home-address'', item_content = ''12 Elm Street'',
                 item_tag = None, item_created_at = 0, item_updated_at = 0\<rparr>],
            isError = False\<rparr>"
    using address_match
    by (simp add: call_list address_book_eq address_search_def sample_args_def
        tag_argument_def or_argument_def truthy_def template_def pg_select_list_def
        address_filter listing_def project_def eq_filter_def tag_filter_def
        any_condition_two backslash_def del: ilike.simps)
  moreover have "filter (spec_selected address_search) (table_rows address_book) = []"
    using address_spec
    by (simp add: address_book_eq spec_selected_def address_search_def sample_args_def
        truthy_def template_def del: contains_ci.simps)
  ultimately show ?thesis by simp
qed

text \<open>A search term with a comma breaks the text of the filter apart: the call fails.\<close>

lemma search_comma:
  "fst (call_tool memories ''list_memories''
          (Some (sample_args ''u1'' [] [] None (Some ''Elm, Oak''))) address_book)
     = Inr \<lparr>payload = Error_payload (Msg ''Database error: failed to parse logic tree''),
            isError = True\<rparr>"
  by (simp add: call_list sample_args_def tag_argument_def or_argument_def truthy_def
      template_def pg_select_list_def parse_or_def search_filter_def parse_condition_def
      text_columns_def parse_failure_def error_envelope_def database_error_def Let_def)

subsection \<open>The constraint is kept\<close>

text \<open>
  The uniqueness constraint holds in the empty table (\<open>empty_unique\<close>) and every tool call
  keeps it, so it holds in every table the server reaches.
\<close>

lemma snd_call_tool: "snd (call_tool st name arguments s) = snd (switch_name st name arguments s)"
  by (simp add: call_tool_def split: prod.splits sum.splits)

lemma snd_create: "snd (create_memory memories a d) = snd (pg_upsert (create_memory_row a) d)"
  by (simp add: create_memory_def split: prod.splits sum.splits)

lemma snd_pg_select_single: "snd (pg_select_single u k d) = d"
  by (simp add: pg_select_single_def split: list.splits)

lemma snd_get: "snd (get_memory memories a d) = d"
  using snd_pg_select_single [of "arg_user_id a" "arg_key a" d]
  by (auto simp: get_memory_def split: prod.splits sum.splits)

lemma snd_pg_select_list: "snd (pg_select_list u t f d) = d"
  by (simp add: pg_select_list_def split: option.splits)

lemma snd_list: "snd (list_memories memories a d) = d"
  using snd_pg_select_list [of "arg_user_id a" "tag_argument a" "or_argument a" d]
  by (auto simp: list_memories_def split: prod.splits sum.splits)

lemma snd_forget:
  "snd (forget_memory memories a d) = snd (pg_delete_where (arg_user_id a) (arg_key a) d)"
  by (simp add: forget_memory_def split: prod.splits sum.splits)

lemma snd_tags: "snd (list_tags memories a d) = d"
  by (simp add: list_tags_def pg_select_tags_def)

lemma call_tool_unique:
  assumes "unique_keys d"
  shows "unique_keys (snd (call_tool memories name arguments d))"
proof (cases arguments)
  case None
  with assms show ?thesis
    by (simp add: snd_call_tool switch_name_def destructure_def)
next
  case (Some a)
  with assms show ?thesis
    by (simp add: snd_call_tool switch_name_def destructure_def snd_create snd_get snd_list
        snd_forget snd_tags pg_upsert_unique pg_delete_unique)
qed

end
